theory Spec2Isabelle
  imports Main "HOL-Library.Word"
begin

section \<open>Data model of the process lifecycle core\<close>

text \<open>
  The process management file of the kernel is embedded as pure functions on an explicit
  kernel state. Pointers are addresses (natural numbers, \<open>NULL\<close> is 0); every kind of
  object lives in its own total heap, so that a freed descriptor keeps its last contents,
  as slab memory does. The intrusive lists of the kernel (\<open>p_children\<close>, \<open>p_threads\<close>,
  \<open>proc_list\<close>) are lists of addresses in list order. The file is modelled as compiled
  with the file-system block (\<open>__VFS__\<close>) and without the virtual-memory block.
\<close>

type_synonym addr = nat

abbreviation NULL :: addr where
  "NULL \<equiv> 0"

datatype proc_state = PROC_RUNNING | PROC_DEAD

text \<open>
  Modelled from the spec: the thread header is not among the sources. The only thread
  state the process code names is \<open>KT_EXITED\<close>; every other state is \<open>KT_OTHER\<close>.
\<close>

datatype kt_state = KT_OTHER | KT_EXITED

text \<open>Ways in which a kernel path does not return to its caller.\<close>

datatype halt = NullDeref | AssertFail | Shutdown

datatype errno = ENOTSUP | ECHILD

record kthread_t =
  kt_retval :: "64 word"
  kt_state :: kt_state
  kt_cancelled :: bool

record file_t =
  f_refcount :: int

record proc_t =
  p_pid :: int
  p_name :: string
  p_threads :: "addr list"
  p_children :: "addr list"
  p_pproc :: addr
  p_status :: "64 word"
  p_state :: proc_state
  p_pml4 :: addr
  p_cwd :: addr
  p_files :: "addr list"

text \<open>
  Constants of headers that are not among the sources are parameters of the model.
\<close>

record config =
  PROC_MAX_COUNT :: int
  NFILES :: nat
  PROC_NAME_LEN :: nat
  PID_INIT :: int

text \<open>
  The idle process is the one that \<open>proc_idleproc_init\<close> gives PID 0 and that
  \<open>proc_lookup\<close> returns for PID 0.
\<close>

definition PID_IDLE :: int where
  "PID_IDLE = 0"

record kstate =
  procs :: "addr \<Rightarrow> proc_t"
  kthreads :: "addr \<Rightarrow> kthread_t"
  files :: "addr \<Rightarrow> file_t"
  vnodes :: "addr \<Rightarrow> int"
  user_mem :: "addr \<Rightarrow> 32 word"
  proc_list :: "addr list"
  proc_slab :: "addr set"
  curproc :: addr
  curthr :: addr
  proc_initproc :: addr
  next_pid :: int
  woken :: "addr list"

text \<open>
  \<open>vnodes\<close> holds the reference count of each directory node, \<open>user_mem\<close> the
  \<open>int\<close> cells that a \<open>status\<close> pointer can address, \<open>proc_slab\<close> the descriptors
  handed out by \<open>proc_allocator\<close> and not yet freed, and \<open>woken\<close> the processes on
  whose \<open>p_wait\<close> queue a broadcast has been made, in order.
\<close>

definition upd_proc :: "addr \<Rightarrow> (proc_t \<Rightarrow> proc_t) \<Rightarrow> kstate \<Rightarrow> kstate" where
  "upd_proc a f st = st\<lparr>procs := (procs st)(a := f (procs st a))\<rparr>"

definition upd_thr :: "addr \<Rightarrow> (kthread_t \<Rightarrow> kthread_t) \<Rightarrow> kstate \<Rightarrow> kstate" where
  "upd_thr a f st = st\<lparr>kthreads := (kthreads st)(a := f (kthreads st a))\<rparr>"

subsection \<open>List primitives\<close>

text \<open>
  Modelled from the spec: the list header is not among the sources. \<open>list_remove\<close>
  unlinks an element from the list it is on, \<open>list_insert_tail\<close> appends one, and
  \<open>list_iterate\<close> runs its body on every member of a list, in order. A list link is
  on at most one list, so unlinking a descriptor through its \<open>p_child_link\<close> takes it
  out of whichever child list holds it.
\<close>

definition list_remove_child :: "addr \<Rightarrow> kstate \<Rightarrow> kstate" where
  "list_remove_child c st =
     st\<lparr>procs := (\<lambda>a. (procs st a)\<lparr>p_children := removeAll c (p_children (procs st a))\<rparr>)\<rparr>"

definition list_insert_tail_child :: "addr \<Rightarrow> addr \<Rightarrow> kstate \<Rightarrow> kstate" where
  "list_insert_tail_child parent c st =
     upd_proc parent (\<lambda>p. p\<lparr>p_children := p_children p @ [c]\<rparr>) st"

text \<open>
  The bodies of the loops in this file unlink or destroy the current element only, so
  that a loop visits the members the list had when the loop began. (This presumes that
  the body does not append to the list it walks; the reparenting loop does so only if
  init were the exiting process itself, which the test on \<open>PID_INIT\<close> before the loop
  is there to exclude.) A body that cannot return stops the loop.
\<close>

fun list_iterate :: "'a list \<Rightarrow> ('a \<Rightarrow> 's \<Rightarrow> halt + 's) \<Rightarrow> 's \<Rightarrow> halt + 's" where
  "list_iterate [] body st = Inr st"
| "list_iterate (x # xs) body st =
     (case body x st of Inl h \<Rightarrow> Inl h | Inr st' \<Rightarrow> list_iterate xs body st')"

subsection \<open>File-system and thread collaborators\<close>

text \<open>
  Modelled from the spec: \<open>fref\<close> is not among the sources. It takes a new reference:
  the reference count of the shared file goes up by one.
\<close>

definition fref :: "addr \<Rightarrow> kstate \<Rightarrow> kstate" where
  "fref f st =
     st\<lparr>files := (files st)(f := (files st f)\<lparr>f_refcount := f_refcount (files st f) + 1\<rparr>)\<rparr>"

text \<open>
  Modelled from the spec: \<open>fput\<close> is not among the sources. It is called with the
  address of a table slot (\<open>p_files + fd\<close>); it drops one reference of the file in
  the slot and clears the slot.
\<close>

definition fput :: "addr \<Rightarrow> nat \<Rightarrow> kstate \<Rightarrow> kstate" where
  "fput proc fd st =
     (let f = p_files (procs st proc) ! fd;
          st1 = st\<lparr>files := (files st)(f := (files st f)\<lparr>f_refcount := f_refcount (files st f) - 1\<rparr>)\<rparr>
      in upd_proc proc (\<lambda>p. p\<lparr>p_files := (p_files p)[fd := NULL]\<rparr>) st1)"

text \<open>
  Modelled from the spec: \<open>vref\<close> and \<open>vput\<close> are not among the sources. \<open>vref\<close>
  takes a new reference to a directory node; \<open>vput\<close> is called with the address of
  the \<open>p_cwd\<close> field, drops one reference of the node and clears the field.
\<close>

definition vref :: "addr \<Rightarrow> kstate \<Rightarrow> kstate" where
  "vref v st = st\<lparr>vnodes := (vnodes st)(v := vnodes st v + 1)\<rparr>"

definition vput_cwd :: "addr \<Rightarrow> kstate \<Rightarrow> kstate" where
  "vput_cwd proc st =
     (let v = p_cwd (procs st proc);
          st1 = st\<lparr>vnodes := (vnodes st)(v := vnodes st v - 1)\<rparr>
      in upd_proc proc (\<lambda>p. p\<lparr>p_cwd := NULL\<rparr>) st1)"

text \<open>
  \<open>memcpy(dst, src, sizeof(file_t))\<close> copies the file object at \<open>src\<close> over the one
  at \<open>dst\<close>; writing through a null destination faults.
\<close>

definition memcpy_file :: "addr \<Rightarrow> addr \<Rightarrow> kstate \<Rightarrow> halt + kstate" where
  "memcpy_file dst src st =
     (if dst = NULL then Inl NullDeref
      else Inr (st\<lparr>files := (files st)(dst := files st src)\<rparr>))"

text \<open>
  Modelled from the spec: \<open>kthread_cancel\<close> is not among the sources. It delivers a
  cancellation request carrying the status to the thread.
\<close>

definition kthread_cancel :: "addr \<Rightarrow> 64 word \<Rightarrow> kstate \<Rightarrow> kstate" where
  "kthread_cancel thr retval st =
     upd_thr thr (\<lambda>t. t\<lparr>kt_retval := retval, kt_cancelled := True\<rparr>) st"

text \<open>
  Modelled from the spec: \<open>kthread_destroy\<close> is not among the sources. It destroys a
  thread object still attached to its process: the thread leaves the thread list.
\<close>

definition kthread_destroy :: "addr \<Rightarrow> kstate \<Rightarrow> kstate" where
  "kthread_destroy thr st =
     st\<lparr>procs := (\<lambda>a. (procs st a)\<lparr>p_threads := removeAll thr (p_threads (procs st a))\<rparr>)\<rparr>"

section \<open>The PID allocator\<close>

datatype scan = Exhausted | Free int

definition pid_in_use :: "kstate \<Rightarrow> int \<Rightarrow> bool" where
  "pid_in_use st pid = (List.find (\<lambda>p. p_pid (procs st p) = pid) (proc_list st) \<noteq> None)"

definition pid_succ :: "config \<Rightarrow> int \<Rightarrow> int" where
  "pid_succ cfg pid = (if pid + 1 = PROC_MAX_COUNT cfg then 1 else pid + 1)"

text \<open>
  \<open>_proc_getid\<close> is \<open>proc_getid\<close> here. Its \<open>restart\<close> loop: one scan of the registry for the candidate;
  a hit moves to the next candidate and scans again from the head of the list, unless
  the candidates have come round to \<open>next_pid\<close>. The loop need not end, so it is a
  partial function: \<open>None\<close> is a loop that runs forever.
\<close>

partial_function (option) getid_loop :: "config \<Rightarrow> kstate \<Rightarrow> int \<Rightarrow> scan option" where
  "getid_loop cfg st pid =
     (if pid_in_use st pid
      then (if pid_succ cfg pid = next_pid st then Some Exhausted
            else getid_loop cfg st (pid_succ cfg pid))
      else Some (Free pid))"

text \<open>
  After the loop the cursor moves past the PID found and \<open>KASSERT(pid)\<close> is checked.
  PIDs are \<open>int\<close>: below \<open>PROC_MAX_COUNT\<close> the increments of a \<open>pid_t\<close> do not
  overflow.
\<close>

definition proc_getid :: "config \<Rightarrow> kstate \<Rightarrow> (halt + int \<times> kstate) option" where
  "proc_getid cfg st =
     (case getid_loop cfg st (next_pid st) of
        None \<Rightarrow> None
      | Some Exhausted \<Rightarrow> Some (Inr (- 1, st))
      | Some (Free pid) \<Rightarrow>
          (if pid = 0 then Some (Inl AssertFail)
           else Some (Inr (pid, st\<lparr>next_pid := pid_succ cfg pid\<rparr>))))"

section \<open>Creation\<close>

text \<open>
  The loop over the descriptor table in \<open>proc_create\<close>: for an occupied slot of the
  caller, \<open>fref\<close> and then \<open>memcpy\<close> to the pointer held in the same slot of the new
  table.
\<close>

fun clone_files :: "nat list \<Rightarrow> addr \<Rightarrow> kstate \<Rightarrow> halt + kstate" where
  "clone_files [] proc st = Inr st"
| "clone_files (fd # fds) proc st =
     (if p_files (procs st (curproc st)) ! fd \<noteq> NULL
      then (case memcpy_file (p_files (procs st proc) ! fd)
                             (p_files (procs st (curproc st)) ! fd)
                             (fref (p_files (procs st (curproc st)) ! fd) st) of
              Inl h \<Rightarrow> Inl h
            | Inr st' \<Rightarrow> clone_files fds proc st')
      else clone_files fds proc st)"

definition clone_cwd :: "addr \<Rightarrow> kstate \<Rightarrow> kstate" where
  "clone_cwd proc st =
     (if p_cwd (procs st (curproc st)) \<noteq> NULL
      then (let st1 = upd_proc proc (\<lambda>p. p\<lparr>p_cwd := p_cwd (procs st (curproc st))\<rparr>) st
            in vref (p_cwd (procs st1 proc)) st1)
      else st)"

definition new_proc :: "config \<Rightarrow> int \<Rightarrow> addr \<Rightarrow> string \<Rightarrow> addr \<Rightarrow> proc_t" where
  "new_proc cfg pid pml4 name parent =
     \<lparr>p_pid = pid, p_name = take (PROC_NAME_LEN cfg - 1) name, p_threads = [],
      p_children = [], p_pproc = parent, p_status = 0, p_state = PROC_RUNNING,
      p_pml4 = pml4, p_cwd = NULL, p_files = replicate (NFILES cfg) NULL\<rparr>"

text \<open>
  \<open>proc_create\<close>. The results of the two allocators it calls are arguments: \<open>new\<close> is
  what \<open>slab_obj_alloc\<close> returns (\<open>NULL\<close> when it fails), \<open>pml4\<close> what \<open>pt_create\<close>
  returns. The pointer returned is \<open>NULL\<close> on failure.
\<close>

definition proc_create ::
  "config \<Rightarrow> addr \<Rightarrow> addr \<Rightarrow> string \<Rightarrow> kstate \<Rightarrow> (halt + addr \<times> kstate) option" where
  "proc_create cfg new pml4 name st0 =
     (case proc_getid cfg st0 of
        None \<Rightarrow> None
      | Some (Inl h) \<Rightarrow> Some (Inl h)
      | Some (Inr (pid, st)) \<Rightarrow>
          Some (if pid < 0 then Inr (NULL, st)
                else if new = NULL then Inr (NULL, st)
                else
                  (let st1 = st\<lparr>proc_slab := insert new (proc_slab st),
                                procs := (procs st)(new := new_proc cfg pid pml4 name (curproc st))\<rparr>
                   in case clone_files [0..<NFILES cfg] new st1 of
                        Inl h \<Rightarrow> Inl h
                      | Inr st2 \<Rightarrow>
                          (let st3 = clone_cwd new st2;
                               st4 = (if p_pid (procs st3 new) = PID_INIT cfg
                                      then st3\<lparr>proc_initproc := new\<rparr> else st3);
                               st5 = list_insert_tail_child (curproc st4) new st4
                           in Inr (new, st5\<lparr>proc_list := proc_list st5 @ [new]\<rparr>)))))"

section \<open>Exit and cleanup\<close>

text \<open>
  The three parts of \<open>proc_cleanup\<close>, in the order of its statements: the two
  assignments to the state and the status, the release of the descriptor table and of the
  working directory, and the test for init with the reparenting loop. The release loop
  and the release of the working directory stand in \<open>proc_destroy\<close> in the same
  words, for the process destroyed; \<open>release_files\<close> and \<open>release_cwd\<close> take the
  process as argument.
\<close>

definition cleanup_mark :: "64 word \<Rightarrow> kstate \<Rightarrow> kstate" where
  "cleanup_mark status st =
     upd_proc (curproc st) (\<lambda>p. p\<lparr>p_state := PROC_DEAD, p_status := status\<rparr>) st"

definition release_files :: "config \<Rightarrow> addr \<Rightarrow> kstate \<Rightarrow> kstate" where
  "release_files cfg proc st =
     fold (\<lambda>fd s. if p_files (procs s proc) ! fd \<noteq> NULL then fput proc fd s else s)
          [0..<NFILES cfg] st"

definition release_cwd :: "addr \<Rightarrow> kstate \<Rightarrow> kstate" where
  "release_cwd proc st = (if p_cwd (procs st proc) \<noteq> NULL then vput_cwd proc st else st)"

definition cleanup_release :: "config \<Rightarrow> kstate \<Rightarrow> kstate" where
  "cleanup_release cfg st = release_cwd (curproc st) (release_files cfg (curproc st) st)"

definition reparent_child :: "addr \<Rightarrow> kstate \<Rightarrow> halt + kstate" where
  "reparent_child child st =
     (if proc_initproc st = NULL then Inl NullDeref
      else Inr (upd_proc child (\<lambda>p. p\<lparr>p_pproc := proc_initproc st\<rparr>)
                 (list_insert_tail_child (proc_initproc st) child
                   (list_remove_child child st))))"

text \<open>
  Modelled from the spec: \<open>initproc_finish\<close> is not among the sources. The exit of the
  init process triggers the shutdown of the whole system and is terminal for it.
\<close>

definition cleanup_children :: "config \<Rightarrow> kstate \<Rightarrow> halt + kstate" where
  "cleanup_children cfg st =
     (if p_pid (procs st (curproc st)) = PID_INIT cfg then Inl Shutdown
      else list_iterate (p_children (procs st (curproc st))) reparent_child st)"

definition proc_cleanup :: "config \<Rightarrow> 64 word \<Rightarrow> kstate \<Rightarrow> halt + kstate" where
  "proc_cleanup cfg status st =
     cleanup_children cfg (cleanup_release cfg (cleanup_mark status st))"

text \<open>
  \<open>proc_thread_exiting\<close> ends in \<open>sched_switch\<close> and does not return; the state it
  yields is the one the other threads find.
\<close>

definition proc_thread_exiting :: "config \<Rightarrow> 64 word \<Rightarrow> kstate \<Rightarrow> halt + kstate" where
  "proc_thread_exiting cfg retval st =
     (case proc_cleanup cfg retval st of
        Inl h \<Rightarrow> Inl h
      | Inr st1 \<Rightarrow>
          (let st2 = upd_thr (curthr st1) (\<lambda>t. t\<lparr>kt_retval := retval, kt_state := KT_EXITED\<rparr>) st1
           in Inr (st2\<lparr>woken := woken st2 @ [p_pproc (procs st2 (curproc st2))]\<rparr>)))"

text \<open>
  Modelled from the spec: \<open>kthread_exit\<close> is not among the sources. The exit of a
  thread runs the exit path of its process with the value given.
\<close>

definition kthread_exit :: "config \<Rightarrow> 64 word \<Rightarrow> kstate \<Rightarrow> halt + kstate" where
  "kthread_exit cfg retval st = proc_thread_exiting cfg retval st"

definition do_exit :: "config \<Rightarrow> 64 word \<Rightarrow> kstate \<Rightarrow> halt + kstate" where
  "do_exit cfg status st = kthread_exit cfg status st"

section \<open>Cancellation\<close>

text \<open>
  \<open>proc_kill\<close> cancels the threads of one process. \<open>kill_others\<close> is the loop of
  \<open>proc_kill_all\<close> over the registry; \<open>proc_kill_all\<close> ends in \<open>do_exit(-1)\<close>.
\<close>

definition proc_kill :: "addr \<Rightarrow> 64 word \<Rightarrow> kstate \<Rightarrow> kstate" where
  "proc_kill proc status st =
     fold (\<lambda>thr s. kthread_cancel thr status s) (p_threads (procs st proc)) st"

definition kill_others :: "config \<Rightarrow> kstate \<Rightarrow> kstate" where
  "kill_others cfg st =
     fold (\<lambda>proc s.
             if p_pid (procs s proc) \<noteq> p_pid (procs s (curproc s))
                \<and> p_pid (procs s proc) \<noteq> PID_IDLE
                \<and> p_pid (procs s proc) \<noteq> PID_INIT cfg
             then proc_kill proc (- 1) s else s)
          (proc_list st) st"

definition proc_kill_all :: "config \<Rightarrow> kstate \<Rightarrow> halt + kstate" where
  "proc_kill_all cfg st = do_exit cfg (- 1) (kill_others cfg st)"

section \<open>Destruction\<close>

text \<open>
  \<open>proc_destroy\<close>: the descriptor leaves the registry, its threads are destroyed,
  its files and working directory are released, \<open>KASSERT(proc->p_pml4)\<close> is checked
  and the descriptor goes back to the allocator. \<open>pt_destroy\<close> acts on nothing the
  model holds.
\<close>

definition proc_destroy :: "config \<Rightarrow> addr \<Rightarrow> kstate \<Rightarrow> halt + kstate" where
  "proc_destroy cfg proc st =
     (let st1 = st\<lparr>proc_list := removeAll proc (proc_list st)\<rparr>;
          st2 = fold kthread_destroy (p_threads (procs st1 proc)) st1;
          st3 = release_cwd proc (release_files cfg proc st2)
      in if p_pml4 (procs st3 proc) = NULL then Inl AssertFail
         else Inr (st3\<lparr>proc_slab := proc_slab st3 - {proc}\<rparr>))"

section \<open>Wait and reap\<close>

text \<open>
  A thread that sleeps in \<open>sched_sleep_on\<close> runs again after other threads have
  changed the kernel state. Each wakeup is given by the change the other threads have
  made since the thread fell asleep, an arbitrary function on states; the woken thread is
  on its own process and thread again. \<open>do_waitpid\<close> takes the list of the wakeups to
  come. When the list is used up and the thread would sleep again, the call is
  \<open>Blocked\<close>. A call that returns hands back the wakeups it has not used. A call
  that faults is a \<open>Panic\<close>, with the fault and the state in which the faulting
  statement of \<open>do_waitpid\<close> was reached.
\<close>

type_synonym wakeup = "kstate \<Rightarrow> kstate"

datatype wait_result =
    Return "errno + int" kstate "wakeup list"
  | Blocked kstate
  | Panic halt kstate

definition sched_sleep_on :: "wakeup \<Rightarrow> kstate \<Rightarrow> kstate" where
  "sched_sleep_on w st = (w st)\<lparr>curproc := curproc st, curthr := curthr st\<rparr>"

text \<open>
  The statements that both modes of \<open>do_waitpid\<close> run on the child they have found
  dead: store through \<open>status\<close>, unlink, destroy, return the PID.
\<close>

definition reap :: "config \<Rightarrow> addr \<Rightarrow> int \<Rightarrow> addr \<Rightarrow> kstate \<Rightarrow> wakeup list \<Rightarrow> wait_result" where
  "reap cfg child rpid status st ws =
     (if status = NULL then Panic NullDeref st
      else
        (let st1 = st\<lparr>user_mem := (user_mem st)(status := ucast (p_status (procs st child)))\<rparr>;
             st2 = list_remove_child child st1
         in case proc_destroy cfg child st2 of
              Inl h \<Rightarrow> Panic h st2
            | Inr st3 \<Rightarrow> Return (Inr rpid) st3 ws))"

fun wait_child :: "config \<Rightarrow> addr \<Rightarrow> int \<Rightarrow> addr \<Rightarrow> wakeup list \<Rightarrow> kstate \<Rightarrow> wait_result" where
  "wait_child cfg child pid status ws st =
     (if p_state (procs st child) \<noteq> PROC_DEAD
      then (case ws of
              [] \<Rightarrow> Blocked st
            | w # ws' \<Rightarrow> wait_child cfg child pid status ws' (sched_sleep_on w st))
      else reap cfg child pid status st ws)"

fun wait_any :: "config \<Rightarrow> addr \<Rightarrow> wakeup list \<Rightarrow> kstate \<Rightarrow> wait_result" where
  "wait_any cfg status ws st =
     (case List.find (\<lambda>c. p_state (procs st c) = PROC_DEAD) (p_children (procs st (curproc st))) of
        Some child \<Rightarrow> reap cfg child (p_pid (procs st child)) status st ws
      | None \<Rightarrow>
          (case ws of
             [] \<Rightarrow> Blocked st
           | w # ws' \<Rightarrow> wait_any cfg status ws' (sched_sleep_on w st)))"

definition do_waitpid ::
  "config \<Rightarrow> int \<Rightarrow> addr \<Rightarrow> int \<Rightarrow> wakeup list \<Rightarrow> kstate \<Rightarrow> wait_result" where
  "do_waitpid cfg pid status options ws st =
     (if pid = 0 \<or> pid < - 1 \<or> options \<noteq> 0 then Return (Inl ENOTSUP) st ws
      else if pid > 0 then
        (case List.find (\<lambda>c. p_pid (procs st c) = pid) (p_children (procs st (curproc st))) of
           Some child \<Rightarrow> wait_child cfg child pid status ws st
         | None \<Rightarrow> Return (Inl ECHILD) st ws)
      else if p_children (procs st (curproc st)) = [] then Return (Inl ECHILD) st ws
      else wait_any cfg status ws st)"

section \<open>Notions used to state the properties\<close>

text \<open>What the \<open>restart\<close> loop of the allocator has established when it ends.\<close>

definition scan_ok :: "config \<Rightarrow> kstate \<Rightarrow> scan \<Rightarrow> bool" where
  "scan_ok cfg st r = (case r of
      Free p \<Rightarrow> 1 \<le> p \<and> p < PROC_MAX_COUNT cfg \<and> \<not> pid_in_use st p
    | Exhausted \<Rightarrow> (\<forall>q. 1 \<le> q \<and> q < PROC_MAX_COUNT cfg \<longrightarrow> pid_in_use st q))"

text \<open>The state a sleeping thread finds after a number of wakeups.\<close>

definition after_wakeups :: "kstate \<Rightarrow> wakeup list \<Rightarrow> kstate" where
  "after_wakeups st ws = fold sched_sleep_on ws st"

text \<open>The two situations in which the caller has no child to wait for.\<close>

definition no_such_child :: "int \<Rightarrow> kstate \<Rightarrow> bool" where
  "no_such_child pid st \<longleftrightarrow>
     (0 < pid \<and> (\<forall>c\<in>set (p_children (procs st (curproc st))). p_pid (procs st c) \<noteq> pid)
      \<or> pid = - 1 \<and> p_children (procs st (curproc st)) = [])"

text \<open>The state in which \<open>proc_create\<close> enters its loop over the descriptor table.\<close>

definition create_init :: "config \<Rightarrow> int \<Rightarrow> addr \<Rightarrow> addr \<Rightarrow> string \<Rightarrow> kstate \<Rightarrow> kstate" where
  "create_init cfg pid new pml4 name st =
     st\<lparr>proc_slab := insert new (proc_slab st),
        procs := (procs st)(new := new_proc cfg pid pml4 name (curproc st))\<rparr>"

text \<open>The test by which the loop of \<open>proc_kill_all\<close> selects a process.\<close>

definition kill_target :: "config \<Rightarrow> kstate \<Rightarrow> addr \<Rightarrow> bool" where
  "kill_target cfg st p \<longleftrightarrow>
     p_pid (procs st p) \<noteq> p_pid (procs st (curproc st))
     \<and> p_pid (procs st p) \<noteq> PID_IDLE \<and> p_pid (procs st p) \<noteq> PID_INIT cfg"

text \<open>
  The wakeup that the exit of another process causes: thread \<open>t\<close> of process \<open>p\<close> runs
  \<open>proc_thread_exiting\<close>.
\<close>

definition child_exits :: "config \<Rightarrow> addr \<Rightarrow> addr \<Rightarrow> 64 word \<Rightarrow> wakeup" where
  "child_exits cfg p t retval st =
     (case proc_thread_exiting cfg retval (st\<lparr>curproc := p, curthr := t\<rparr>) of
        Inl h \<Rightarrow> st | Inr st' \<Rightarrow> st')"

subsection \<open>A small system\<close>

text \<open>
  The idle process (descriptor 1, PID 0), init (descriptor 2, PID 1) with the children
  A (descriptor 3, PID 2) and B (descriptor 4, PID 3), and C (descriptor 5, PID 4), a child
  of A. A and B hold the file object 30, all but C have the directory node 20 as working
  directory. The current process is init.
\<close>

definition cfg_ex :: config where
  "cfg_ex = \<lparr>PROC_MAX_COUNT = 8, NFILES = 2, PROC_NAME_LEN = 8, PID_INIT = 1\<rparr>"

definition mk_proc ::
  "int \<Rightarrow> addr list \<Rightarrow> addr list \<Rightarrow> addr \<Rightarrow> addr \<Rightarrow> addr \<Rightarrow> addr list \<Rightarrow> proc_t" where
  "mk_proc pid threads children parent pml4 cwd fds =
     \<lparr>p_pid = pid, p_name = [], p_threads = threads, p_children = children, p_pproc = parent,
      p_status = 0, p_state = PROC_RUNNING, p_pml4 = pml4, p_cwd = cwd, p_files = fds\<rparr>"

definition st_ex :: kstate where
  "st_ex =
     \<lparr>procs = (\<lambda>_. mk_proc 0 [] [] NULL NULL NULL [NULL, NULL])
         (1 := mk_proc 0 [] [2] NULL 41 NULL [NULL, NULL],
          2 := mk_proc 1 [12] [3, 4] 1 42 20 [NULL, NULL],
          3 := mk_proc 2 [13] [5] 2 43 20 [30, NULL],
          4 := mk_proc 3 [14] [] 2 44 20 [30, 30],
          5 := mk_proc 4 [15] [] 3 45 NULL [NULL, NULL]),
      kthreads = (\<lambda>_. \<lparr>kt_retval = 0, kt_state = KT_OTHER, kt_cancelled = False\<rparr>),
      files = (\<lambda>_. \<lparr>f_refcount = 0\<rparr>)(30 := \<lparr>f_refcount = 3\<rparr>),
      vnodes = (\<lambda>_. 0)(20 := 3),
      user_mem = (\<lambda>_. 0),
      proc_list = [2, 3, 4, 5],
      proc_slab = {2, 3, 4, 5},
      curproc = 2, curthr = 12, proc_initproc = 2, next_pid = 2, woken = []\<rparr>"

text \<open>The same system as init finds it once B has exited with status 7.\<close>

definition st_zombie :: kstate where
  "st_zombie = sched_sleep_on (child_exits cfg_ex 4 14 7) st_ex"

text \<open>Two wakeups of init: first B exits with status 7, then A with status 9.\<close>

definition ws_ex :: "wakeup list" where
  "ws_ex = [child_exits cfg_ex 4 14 7, child_exits cfg_ex 3 13 9]"

section \<open>Auxiliary lemmas\<close>

subsection \<open>The allocator loop\<close>

lemma pid_in_use_iff: "pid_in_use st pid \<longleftrightarrow> (\<exists>p \<in> set (proc_list st). p_pid (procs st p) = pid)"
  by (auto simp: pid_in_use_def find_None_iff)

lemma pid_free_iff:
  "\<not> pid_in_use st pid \<longleftrightarrow> (\<forall>p\<in>set (proc_list st). p_pid (procs st p) \<noteq> pid)"
  by (auto simp: pid_in_use_def find_None_iff)

lemma getid_loop_low:
  assumes "n = nat (next_pid st - pid)" "1 \<le> pid" "pid < next_pid st" "next_pid st < PROC_MAX_COUNT cfg"
    and "\<forall>q. next_pid st \<le> q \<and> q < PROC_MAX_COUNT cfg \<longrightarrow> pid_in_use st q"
    and "\<forall>q. 1 \<le> q \<and> q < pid \<longrightarrow> pid_in_use st q"
  shows "\<exists>r. getid_loop cfg st pid = Some r \<and> scan_ok cfg st r"
  using assms
proof (induction n arbitrary: pid)
  case 0
  then show ?case by simp
next
  case (Suc n)
  show ?case
  proof (cases "pid_in_use st pid")
    case False
    then show ?thesis using Suc.prems by (subst getid_loop.simps) (simp add: scan_ok_def)
  next
    case True
    have succ: "pid_succ cfg pid = pid + 1" using Suc.prems by (simp add: pid_succ_def)
    show ?thesis
    proof (cases "pid + 1 = next_pid st")
      case t: True
      have "\<forall>q. 1 \<le> q \<and> q < PROC_MAX_COUNT cfg \<longrightarrow> pid_in_use st q"
      proof (intro allI impI)
        fix q assume q: "1 \<le> q \<and> q < PROC_MAX_COUNT cfg"
        consider "q < pid" | "q = pid" | "next_pid st \<le> q" using t by linarith
        then show "pid_in_use st q" using Suc.prems True q by cases auto
      qed
      then show ?thesis using True succ t by (subst getid_loop.simps) (simp add: scan_ok_def)
    next
      case f: False
      have "\<forall>q. 1 \<le> q \<and> q < pid + 1 \<longrightarrow> pid_in_use st q"
      proof (intro allI impI)
        fix q assume q: "1 \<le> q \<and> q < pid + 1"
        consider "q < pid" | "q = pid" using q by linarith
        then show "pid_in_use st q" using Suc.prems True q by cases auto
      qed
      then have "\<exists>r. getid_loop cfg st (pid + 1) = Some r \<and> scan_ok cfg st r"
        using Suc.prems f by (intro Suc.IH) auto
      then show ?thesis using True succ f by (subst getid_loop.simps) simp
    qed
  qed
qed

lemma getid_loop_high:
  assumes "n = nat (PROC_MAX_COUNT cfg - pid)" "1 \<le> next_pid st" "next_pid st \<le> pid" "pid < PROC_MAX_COUNT cfg"
    and "\<forall>q. next_pid st \<le> q \<and> q < pid \<longrightarrow> pid_in_use st q"
  shows "\<exists>r. getid_loop cfg st pid = Some r \<and> scan_ok cfg st r"
  using assms
proof (induction n arbitrary: pid)
  case 0
  then show ?case by simp
next
  case (Suc n)
  show ?case
  proof (cases "pid_in_use st pid")
    case False
    then show ?thesis using Suc.prems by (subst getid_loop.simps) (simp add: scan_ok_def)
  next
    case True
    have upto: "\<forall>q. next_pid st \<le> q \<and> q < pid + 1 \<longrightarrow> pid_in_use st q"
    proof (intro allI impI)
      fix q assume q: "next_pid st \<le> q \<and> q < pid + 1"
      consider "q < pid" | "q = pid" using q by linarith
      then show "pid_in_use st q" using Suc.prems True q by cases auto
    qed
    show ?thesis
    proof (cases "pid + 1 = PROC_MAX_COUNT cfg")
      case wrap: True
      then have succ: "pid_succ cfg pid = 1" by (simp add: pid_succ_def)
      have high: "\<forall>q. next_pid st \<le> q \<and> q < PROC_MAX_COUNT cfg \<longrightarrow> pid_in_use st q"
        using upto wrap by simp
      show ?thesis
      proof (cases "next_pid st = 1")
        case True
        then show ?thesis using \<open>pid_in_use st pid\<close> succ high
          by (subst getid_loop.simps) (simp add: scan_ok_def)
      next
        case False
        then have "\<exists>r. getid_loop cfg st 1 = Some r \<and> scan_ok cfg st r"
          using Suc.prems high by (intro getid_loop_low [OF refl]) auto
        then show ?thesis using \<open>pid_in_use st pid\<close> succ False
          by (subst getid_loop.simps) simp
      qed
    next
      case False
      then have succ: "pid_succ cfg pid = pid + 1" by (simp add: pid_succ_def)
      have "\<exists>r. getid_loop cfg st (pid + 1) = Some r \<and> scan_ok cfg st r"
        using Suc.prems False upto by (intro Suc.IH) auto
      then show ?thesis using True succ Suc.prems
        by (subst getid_loop.simps) simp
    qed
  qed
qed

lemma getid_loop_total:
  assumes "1 \<le> next_pid st" "next_pid st < PROC_MAX_COUNT cfg"
  shows "\<exists>r. getid_loop cfg st (next_pid st) = Some r \<and> scan_ok cfg st r"
  using assms by (intro getid_loop_high [OF refl]) auto

lemma getid_loop_Some:
  assumes "getid_loop cfg st pid = Some r"
  shows "\<forall>p. r = Free p \<longrightarrow> \<not> pid_in_use st p"
  using assms
  by (rule getid_loop.raw_induct [rotated]) (auto split: if_splits)

lemma proc_getid_Inr:
  assumes "proc_getid cfg st0 = Some (Inr (pid, st))"
  shows "pid = - 1 \<and> st = st0
         \<or> pid \<noteq> 0 \<and> \<not> pid_in_use st0 pid \<and> st = st0\<lparr>next_pid := pid_succ cfg pid\<rparr>"
proof (cases "getid_loop cfg st0 (next_pid st0)")
  case None
  then show ?thesis using assms by (simp add: proc_getid_def)
next
  case (Some r)
  show ?thesis
  proof (cases r)
    case Exhausted
    then show ?thesis using assms Some by (simp add: proc_getid_def)
  next
    case (Free p)
    then have "\<not> pid_in_use st0 p" using getid_loop_Some [OF Some] by simp
    then show ?thesis using assms Some Free by (auto simp: proc_getid_def split: if_splits)
  qed
qed


subsection \<open>Lists and folds\<close>

lemma fold_proj: "(\<And>x s. g (f x s) = g s) \<Longrightarrow> g (fold f xs s) = g s"
  by (induction xs arbitrary: s) auto

lemma find_SomeD: "List.find P xs = Some x \<Longrightarrow> x \<in> set xs \<and> P x"
  by (metis find_Some_iff nth_mem)

lemma find_append_last:
  "\<forall>x\<in>set xs. \<not> P x \<Longrightarrow> P y \<Longrightarrow> List.find P (xs @ [y]) = Some y"
  by (induction xs) auto

lemma all_less_two: "(\<forall>j<2::nat. P j) \<longleftrightarrow> P 0 \<and> P 1"
  by (metis One_nat_def less_2_cases less_2_cases_iff)


subsection \<open>Release of files and of the working directory\<close>

lemma fput_frame:
  "proc_list (fput p fd st) = proc_list st" "proc_slab (fput p fd st) = proc_slab st"
  "curproc (fput p fd st) = curproc st" "curthr (fput p fd st) = curthr st"
  "proc_initproc (fput p fd st) = proc_initproc st" "next_pid (fput p fd st) = next_pid st"
  "woken (fput p fd st) = woken st" "kthreads (fput p fd st) = kthreads st"
  "vnodes (fput p fd st) = vnodes st" "user_mem (fput p fd st) = user_mem st"
  "p_state (procs (fput p fd st) a) = p_state (procs st a)"
  "p_status (procs (fput p fd st) a) = p_status (procs st a)"
  "p_pid (procs (fput p fd st) a) = p_pid (procs st a)"
  "p_children (procs (fput p fd st) a) = p_children (procs st a)"
  "p_pproc (procs (fput p fd st) a) = p_pproc (procs st a)"
  "p_threads (procs (fput p fd st) a) = p_threads (procs st a)"
  "p_pml4 (procs (fput p fd st) a) = p_pml4 (procs st a)"
  "p_cwd (procs (fput p fd st) a) = p_cwd (procs st a)"
  by (simp_all add: fput_def upd_proc_def Let_def)

lemma fput_effect:
  "p_files (procs (fput p fd s) p) = (p_files (procs s p))[fd := NULL]"
  "f_refcount (files (fput p fd s) f)
     = f_refcount (files s f) - (if f = p_files (procs s p) ! fd then 1 else 0)"
  by (simp_all add: fput_def upd_proc_def Let_def)

lemma release_files_frame:
  "proc_list (release_files cfg p st) = proc_list st" "proc_slab (release_files cfg p st) = proc_slab st"
  "curproc (release_files cfg p st) = curproc st" "curthr (release_files cfg p st) = curthr st"
  "proc_initproc (release_files cfg p st) = proc_initproc st" "next_pid (release_files cfg p st) = next_pid st"
  "woken (release_files cfg p st) = woken st" "kthreads (release_files cfg p st) = kthreads st"
  "vnodes (release_files cfg p st) = vnodes st" "user_mem (release_files cfg p st) = user_mem st"
  "p_state (procs (release_files cfg p st) a) = p_state (procs st a)"
  "p_status (procs (release_files cfg p st) a) = p_status (procs st a)"
  "p_pid (procs (release_files cfg p st) a) = p_pid (procs st a)"
  "p_children (procs (release_files cfg p st) a) = p_children (procs st a)"
  "p_pproc (procs (release_files cfg p st) a) = p_pproc (procs st a)"
  "p_threads (procs (release_files cfg p st) a) = p_threads (procs st a)"
  "p_pml4 (procs (release_files cfg p st) a) = p_pml4 (procs st a)"
  "p_cwd (procs (release_files cfg p st) a) = p_cwd (procs st a)"
  unfolding release_files_def
  by (rule fold_proj, simp add: fput_frame)+

lemma release_fold_noop:
  "\<forall>fd\<in>set fds. p_files (procs s p) ! fd = NULL
   \<Longrightarrow> fold (\<lambda>fd s. if p_files (procs s p) ! fd \<noteq> NULL then fput p fd s else s) fds s = s"
  by (induction fds) simp_all

lemma release_files_noop:
  "\<forall>fd<NFILES cfg. p_files (procs s p) ! fd = NULL \<Longrightarrow> release_files cfg p s = s"
  unfolding release_files_def by (rule release_fold_noop) simp

lemma release_fold_precise:
  assumes "distinct fds" and "\<forall>fd\<in>set fds. fd < length (p_files (procs s p))"
  shows "length (p_files (procs (fold (\<lambda>fd s. if p_files (procs s p) ! fd \<noteq> NULL then fput p fd s else s) fds s) p))
           = length (p_files (procs s p))
     \<and> (\<forall>i<length (p_files (procs s p)).
           p_files (procs (fold (\<lambda>fd s. if p_files (procs s p) ! fd \<noteq> NULL then fput p fd s else s) fds s) p) ! i
             = (if i \<in> set fds then NULL else p_files (procs s p) ! i))
     \<and> (\<forall>f. f_refcount (files (fold (\<lambda>fd s. if p_files (procs s p) ! fd \<noteq> NULL then fput p fd s else s) fds s) f)
             = f_refcount (files s f)
               - (if f = NULL then 0 else int (count_list (map ((!) (p_files (procs s p))) fds) f)))"
  using assms
proof (induction fds arbitrary: s)
  case Nil
  then show ?case by simp
next
  case (Cons a fds)
  let ?g = "\<lambda>fd s. if p_files (procs s p) ! fd \<noteq> NULL then fput p fd s else s"
  let ?pf = "p_files (procs s p)"
  define s1 where "s1 = ?g a s"
  have a: "a \<notin> set fds" "distinct fds" "a < length ?pf" using Cons.prems by auto
  have pf1: "p_files (procs s1 p) = ?pf[a := NULL]"
  proof (cases "?pf ! a = NULL")
    case True
    then have "?pf[a := NULL] = ?pf" by (metis list_update_id)
    then show ?thesis using True by (simp add: s1_def)
  next
    case False
    then show ?thesis by (simp add: s1_def fput_effect)
  qed
  have rc1: "\<And>f. f_refcount (files s1 f)
       = f_refcount (files s f) - (if f \<noteq> NULL \<and> f = ?pf ! a then 1 else 0)"
    by (auto simp: s1_def fput_effect)
  have len1: "\<forall>fd\<in>set fds. fd < length (p_files (procs s1 p))"
    using Cons.prems pf1 by simp
  note ih = Cons.IH [OF a(2) len1]
  have "\<And>x. x \<in> set fds \<Longrightarrow> ?pf[a := NULL] ! x = ?pf ! x"
    using a(1) by (metis nth_list_update_neq)
  then have "map ((!) (?pf[a := NULL])) fds = map ((!) ?pf) fds"
    by simp
  then have map1: "map ((!) (p_files (procs s1 p))) fds = map ((!) ?pf) fds"
    by (simp only: pf1)
  note ih' = ih [unfolded map1]
  have fold1: "fold ?g (a # fds) s = fold ?g fds s1" by (simp add: s1_def)
  have l: "length (p_files (procs (fold ?g (a # fds) s) p)) = length ?pf"
    unfolding fold1 using ih pf1 by simp
  have n: "\<forall>i<length ?pf. p_files (procs (fold ?g (a # fds) s) p) ! i
             = (if i \<in> set (a # fds) then NULL else ?pf ! i)"
    unfolding fold1 using ih pf1 by (auto simp: nth_list_update)
  have r: "\<forall>f. f_refcount (files (fold ?g (a # fds) s) f)
             = f_refcount (files s f)
               - (if f = NULL then 0 else int (count_list (map ((!) ?pf) (a # fds)) f))"
    unfolding fold1 using ih' rc1 by auto
  show ?case using l n r by blast
qed

lemma release_files_precise:
  assumes "length (p_files (procs s p)) = NFILES cfg"
  shows "p_files (procs (release_files cfg p s) p) = replicate (NFILES cfg) NULL"
    and "f \<noteq> NULL \<Longrightarrow> f_refcount (files (release_files cfg p s) f)
           = f_refcount (files s f) - int (count_list (p_files (procs s p)) f)"
proof -
  have d: "distinct [0..<NFILES cfg]" by simp
  have b: "\<forall>fd\<in>set [0..<NFILES cfg]. fd < length (p_files (procs s p))" using assms by simp
  note R = release_fold_precise [OF d b, folded release_files_def]
  have m: "map ((!) (p_files (procs s p))) [0..<NFILES cfg] = p_files (procs s p)"
    using assms map_nth [of "p_files (procs s p)"] by simp
  show "p_files (procs (release_files cfg p s) p) = replicate (NFILES cfg) NULL"
    using R assms by (intro nth_equalityI) auto
  show "f \<noteq> NULL \<Longrightarrow> f_refcount (files (release_files cfg p s) f)
           = f_refcount (files s f) - int (count_list (p_files (procs s p)) f)"
    using R m by simp
qed

lemma release_cwd_frame:
  "proc_list (release_cwd p st) = proc_list st" "proc_slab (release_cwd p st) = proc_slab st"
  "curproc (release_cwd p st) = curproc st" "curthr (release_cwd p st) = curthr st"
  "proc_initproc (release_cwd p st) = proc_initproc st" "next_pid (release_cwd p st) = next_pid st"
  "woken (release_cwd p st) = woken st" "kthreads (release_cwd p st) = kthreads st"
  "files (release_cwd p st) = files st" "user_mem (release_cwd p st) = user_mem st"
  "p_state (procs (release_cwd p st) a) = p_state (procs st a)"
  "p_status (procs (release_cwd p st) a) = p_status (procs st a)"
  "p_pid (procs (release_cwd p st) a) = p_pid (procs st a)"
  "p_children (procs (release_cwd p st) a) = p_children (procs st a)"
  "p_pproc (procs (release_cwd p st) a) = p_pproc (procs st a)"
  "p_threads (procs (release_cwd p st) a) = p_threads (procs st a)"
  "p_pml4 (procs (release_cwd p st) a) = p_pml4 (procs st a)"
  "p_files (procs (release_cwd p st) a) = p_files (procs st a)"
  by (simp_all add: release_cwd_def vput_cwd_def upd_proc_def Let_def)

lemma release_cwd_effect:
  "p_cwd (procs (release_cwd p s) p) = NULL"
  "vnodes (release_cwd p s)
     = (if p_cwd (procs s p) \<noteq> NULL
        then (vnodes s)(p_cwd (procs s p) := vnodes s (p_cwd (procs s p)) - 1) else vnodes s)"
  by (simp_all add: release_cwd_def vput_cwd_def upd_proc_def Let_def)

lemma release_cwd_noop: "p_cwd (procs s p) = NULL \<Longrightarrow> release_cwd p s = s"
  by (simp add: release_cwd_def)


subsection \<open>Destruction\<close>

lemma kthread_destroy_frame:
  "proc_list (kthread_destroy t st) = proc_list st" "proc_slab (kthread_destroy t st) = proc_slab st"
  "curproc (kthread_destroy t st) = curproc st" "curthr (kthread_destroy t st) = curthr st"
  "proc_initproc (kthread_destroy t st) = proc_initproc st" "next_pid (kthread_destroy t st) = next_pid st"
  "woken (kthread_destroy t st) = woken st" "kthreads (kthread_destroy t st) = kthreads st"
  "files (kthread_destroy t st) = files st" "vnodes (kthread_destroy t st) = vnodes st"
  "user_mem (kthread_destroy t st) = user_mem st"
  "p_state (procs (kthread_destroy t st) a) = p_state (procs st a)"
  "p_status (procs (kthread_destroy t st) a) = p_status (procs st a)"
  "p_pid (procs (kthread_destroy t st) a) = p_pid (procs st a)"
  "p_children (procs (kthread_destroy t st) a) = p_children (procs st a)"
  "p_pproc (procs (kthread_destroy t st) a) = p_pproc (procs st a)"
  "p_pml4 (procs (kthread_destroy t st) a) = p_pml4 (procs st a)"
  "p_cwd (procs (kthread_destroy t st) a) = p_cwd (procs st a)"
  "p_files (procs (kthread_destroy t st) a) = p_files (procs st a)"
  by (simp_all add: kthread_destroy_def)

lemma destroy_threads_frame:
  "proc_list (fold kthread_destroy ts st) = proc_list st" "proc_slab (fold kthread_destroy ts st) = proc_slab st"
  "curproc (fold kthread_destroy ts st) = curproc st" "curthr (fold kthread_destroy ts st) = curthr st"
  "proc_initproc (fold kthread_destroy ts st) = proc_initproc st" "next_pid (fold kthread_destroy ts st) = next_pid st"
  "woken (fold kthread_destroy ts st) = woken st" "kthreads (fold kthread_destroy ts st) = kthreads st"
  "files (fold kthread_destroy ts st) = files st" "vnodes (fold kthread_destroy ts st) = vnodes st"
  "user_mem (fold kthread_destroy ts st) = user_mem st"
  "p_state (procs (fold kthread_destroy ts st) a) = p_state (procs st a)"
  "p_status (procs (fold kthread_destroy ts st) a) = p_status (procs st a)"
  "p_pid (procs (fold kthread_destroy ts st) a) = p_pid (procs st a)"
  "p_children (procs (fold kthread_destroy ts st) a) = p_children (procs st a)"
  "p_pproc (procs (fold kthread_destroy ts st) a) = p_pproc (procs st a)"
  "p_pml4 (procs (fold kthread_destroy ts st) a) = p_pml4 (procs st a)"
  "p_cwd (procs (fold kthread_destroy ts st) a) = p_cwd (procs st a)"
  "p_files (procs (fold kthread_destroy ts st) a) = p_files (procs st a)"
  by (rule fold_proj, simp add: kthread_destroy_frame)+

lemma destroy_threads_list:
  "p_threads (procs (fold kthread_destroy ts st) a) = filter (\<lambda>t. t \<notin> set ts) (p_threads (procs st a))"
proof (induction ts arbitrary: st)
  case Nil
  then show ?case by simp
next
  case (Cons t ts)
  have "p_threads (procs (kthread_destroy t st) a) = removeAll t (p_threads (procs st a))"
    by (simp add: kthread_destroy_def)
  then show ?case using Cons.IH [of "kthread_destroy t st"]
    by (simp add: removeAll_filter_not_eq filter_filter conj_commute) (metis)
qed

lemmas destroy_parts_frame = release_cwd_frame release_files_frame destroy_threads_frame

lemma proc_destroy_Inr:
  assumes "proc_destroy cfg c st = Inr st'"
  shows "proc_list st' = removeAll c (proc_list st)"
    and "proc_slab st' = proc_slab st - {c}"
    and "curproc st' = curproc st" and "curthr st' = curthr st"
    and "user_mem st' = user_mem st" and "kthreads st' = kthreads st"
    and "proc_initproc st' = proc_initproc st" and "next_pid st' = next_pid st"
    and "woken st' = woken st"
    and "p_state (procs st' a) = p_state (procs st a)"
    and "p_status (procs st' a) = p_status (procs st a)"
    and "p_pid (procs st' a) = p_pid (procs st a)"
    and "p_children (procs st' a) = p_children (procs st a)"
    and "p_pproc (procs st' a) = p_pproc (procs st a)"
    and "p_pml4 (procs st' a) = p_pml4 (procs st a)"
    and "p_threads (procs st' c) = []"
    and "p_pml4 (procs st c) \<noteq> NULL"
  using assms
  by (auto simp: proc_destroy_def Let_def destroy_parts_frame destroy_threads_list split: if_splits)

lemma proc_destroy_ok:
  "p_pml4 (procs st c) \<noteq> NULL \<Longrightarrow> \<exists>st'. proc_destroy cfg c st = Inr st'"
  by (simp add: proc_destroy_def Let_def destroy_parts_frame)

lemma proc_destroy_fail:
  "p_pml4 (procs st c) = NULL \<Longrightarrow> proc_destroy cfg c st = Inl AssertFail"
  by (simp add: proc_destroy_def Let_def destroy_parts_frame)

lemma proc_destroy_clean:
  assumes "\<forall>fd<NFILES cfg. p_files (procs st c) ! fd = NULL" and "p_cwd (procs st c) = NULL"
    and "proc_destroy cfg c st = Inr st'"
  shows "files st' = files st" and "vnodes st' = vnodes st"
proof -
  let ?s2 = "fold kthread_destroy (p_threads (procs (st\<lparr>proc_list := removeAll c (proc_list st)\<rparr>) c))
               (st\<lparr>proc_list := removeAll c (proc_list st)\<rparr>)"
  have f: "\<forall>fd<NFILES cfg. p_files (procs ?s2 c) ! fd = NULL" using assms(1)
    by (simp add: destroy_threads_frame)
  have w: "p_cwd (procs ?s2 c) = NULL" using assms(2) by (simp add: destroy_threads_frame)
  have "release_cwd c (release_files cfg c ?s2) = ?s2"
    using release_files_noop [OF f] release_cwd_noop [OF w] by simp
  then have "st' = ?s2\<lparr>proc_slab := proc_slab ?s2 - {c}\<rparr>"
    using assms(3) by (auto simp: proc_destroy_def Let_def split: if_splits)
  then show "files st' = files st" and "vnodes st' = vnodes st"
    by (simp_all add: destroy_threads_frame)
qed


subsection \<open>Reaping and waiting\<close>

text \<open>The loops of \<open>do_waitpid\<close> are unfolded by hand, one wakeup at a time.\<close>

declare wait_child.simps [simp del]

declare wait_any.simps [simp del]

lemma after_wakeups_simps:
  "after_wakeups st [] = st"
  "after_wakeups st (w # ws) = after_wakeups (sched_sleep_on w st) ws"
  by (simp_all add: after_wakeups_def)

lemma after_wakeups_cur:
  "curproc (after_wakeups st ws) = curproc st" "curthr (after_wakeups st ws) = curthr st"
  by (induction ws arbitrary: st) (simp_all add: after_wakeups_simps sched_sleep_on_def)

lemma reap_cases:
  "reap cfg c p status st ws = Panic NullDeref st \<and> status = NULL
   \<or> reap cfg c p status st ws = Panic AssertFail (list_remove_child c
             (st\<lparr>user_mem := (user_mem st)(status := ucast (p_status (procs st c)))\<rparr>))
        \<and> status \<noteq> NULL \<and> p_pml4 (procs st c) = NULL
   \<or> status \<noteq> NULL \<and> p_pml4 (procs st c) \<noteq> NULL \<and> (\<exists>st'. reap cfg c p status st ws = Return (Inr p) st' ws
        \<and> proc_destroy cfg c (list_remove_child c
             (st\<lparr>user_mem := (user_mem st)(status := ucast (p_status (procs st c)))\<rparr>)) = Inr st')"
proof (cases "status = NULL")
  case True
  then show ?thesis by (simp add: reap_def)
next
  case False
  let ?s2 = "list_remove_child c (st\<lparr>user_mem := (user_mem st)(status := ucast (p_status (procs st c)))\<rparr>)"
  have pm: "p_pml4 (procs ?s2 c) = p_pml4 (procs st c)" by (simp add: list_remove_child_def)
  show ?thesis
  proof (cases "p_pml4 (procs st c) = NULL")
    case True
    then have "proc_destroy cfg c ?s2 = Inl AssertFail" using pm by (simp add: proc_destroy_fail)
    then show ?thesis using False True by (simp add: reap_def Let_def)
  next
    case nz: False
    then obtain st' where "proc_destroy cfg c ?s2 = Inr st'" using pm proc_destroy_ok by metis
    then show ?thesis using False nz by (simp add: reap_def Let_def)
  qed
qed

lemma reap_Return:
  assumes "reap cfg c p status st ws = Return r st' ws'"
  shows "r = Inr p" and "ws' = ws" and "status \<noteq> NULL"
    and "user_mem st' status = ucast (p_status (procs st c))"
    and "p_status (procs st' c) = p_status (procs st c)"
    and "p_state (procs st' a) = p_state (procs st a)"
    and "c \<notin> set (p_children (procs st' a))"
    and "c \<notin> set (proc_list st')" and "c \<notin> proc_slab st'"
    and "p_threads (procs st' c) = []"
    and "curproc st' = curproc st"
    and "proc_list st' = removeAll c (proc_list st)"
  using assms reap_cases [of cfg c p status st ws]
  by (auto simp: proc_destroy_Inr list_remove_child_def)

lemma reap_null: "reap cfg c p NULL st ws = Panic NullDeref st"
  by (simp add: reap_def)

lemma reap_ok:
  assumes "status \<noteq> NULL" and "p_pml4 (procs st c) \<noteq> NULL"
  shows "\<exists>st'. reap cfg c p status st ws = Return (Inr p) st' ws
     \<and> user_mem st' status = ucast (p_status (procs st c))
     \<and> (\<forall>a. p_children (procs st' a) = removeAll c (p_children (procs st a)))
     \<and> proc_list st' = removeAll c (proc_list st)
     \<and> proc_slab st' = proc_slab st - {c}
     \<and> p_threads (procs st' c) = [] \<and> curproc st' = curproc st"
proof -
  from reap_cases [of cfg c p status st ws] assms obtain st' where
    r: "reap cfg c p status st ws = Return (Inr p) st' ws"
    and d: "proc_destroy cfg c (list_remove_child c
             (st\<lparr>user_mem := (user_mem st)(status := ucast (p_status (procs st c)))\<rparr>)) = Inr st'"
    by auto
  show ?thesis using r proc_destroy_Inr [OF d]
    by (simp add: list_remove_child_def)
qed

lemma reap_not_error: "reap cfg c p status sk wk \<noteq> Return (Inl e) st' ws'"
  using reap_cases [of cfg c p status sk wk] by auto


lemma wait_child_blocked:
  "(\<forall>j\<le>length ws. p_state (procs (after_wakeups st (take j ws)) c) \<noteq> PROC_DEAD)
   \<Longrightarrow> wait_child cfg c pid status ws st = Blocked (after_wakeups st ws)"
proof (induction ws arbitrary: st)
  case Nil
  then show ?case by (simp add: wait_child.simps after_wakeups_simps)
next
  case (Cons w ws)
  from Cons.prems have now: "p_state (procs st c) \<noteq> PROC_DEAD"
    by (auto dest: spec [of _ 0] simp: after_wakeups_simps)
  have "\<forall>j\<le>length ws. p_state (procs (after_wakeups (sched_sleep_on w st) (take j ws)) c) \<noteq> PROC_DEAD"
  proof (intro allI impI)
    fix j assume "j \<le> length ws"
    then show "p_state (procs (after_wakeups (sched_sleep_on w st) (take j ws)) c) \<noteq> PROC_DEAD"
      using Cons.prems [rule_format, of "Suc j"] by (simp add: after_wakeups_simps)
  qed
  from Cons.IH [OF this] show ?case using now
    by (subst wait_child.simps) (simp add: after_wakeups_simps)
qed

lemma wait_child_returns:
  "k \<le> length ws \<Longrightarrow> (\<forall>j<k. p_state (procs (after_wakeups st (take j ws)) c) \<noteq> PROC_DEAD)
   \<Longrightarrow> p_state (procs (after_wakeups st (take k ws)) c) = PROC_DEAD
   \<Longrightarrow> wait_child cfg c pid status ws st
       = reap cfg c pid status (after_wakeups st (take k ws)) (drop k ws)"
proof (induction k arbitrary: ws st)
  case 0
  then show ?case by (subst wait_child.simps) (simp add: after_wakeups_simps)
next
  case (Suc k)
  then obtain w ws' where ws: "ws = w # ws'" by (cases ws) auto
  from Suc.prems(2) have now: "p_state (procs st c) \<noteq> PROC_DEAD"
    by (auto dest: spec [of _ 0] simp: after_wakeups_simps)
  have a: "k \<le> length ws'" using Suc.prems ws by simp
  have b: "\<forall>j<k. p_state (procs (after_wakeups (sched_sleep_on w st) (take j ws')) c) \<noteq> PROC_DEAD"
  proof (intro allI impI)
    fix j assume "j < k"
    then show "p_state (procs (after_wakeups (sched_sleep_on w st) (take j ws')) c) \<noteq> PROC_DEAD"
      using Suc.prems(2) [rule_format, of "Suc j"] ws by (simp add: after_wakeups_simps)
  qed
  have c: "p_state (procs (after_wakeups (sched_sleep_on w st) (take k ws')) c) = PROC_DEAD"
    using Suc.prems(3) ws by (simp add: after_wakeups_simps)
  from Suc.IH [OF a b c] show ?case using now ws
    by (subst wait_child.simps) (simp add: after_wakeups_simps)
qed

lemma wait_child_form:
  "(\<exists>s. \<forall>status. wait_child cfg c pid status ws st = Blocked s)
   \<or> (\<exists>sk wk. p_state (procs sk c) = PROC_DEAD
          \<and> (\<forall>status. wait_child cfg c pid status ws st = reap cfg c pid status sk wk))"
proof (induction ws arbitrary: st)
  case Nil
  show ?case
  proof (cases "p_state (procs st c) = PROC_DEAD")
    case True
    then have "\<forall>status. wait_child cfg c pid status [] st = reap cfg c pid status st []"
      by (simp add: wait_child.simps)
    then show ?thesis using True by blast
  next
    case False
    then show ?thesis by (simp add: wait_child.simps)
  qed
next
  case (Cons w ws)
  show ?case
  proof (cases "p_state (procs st c) = PROC_DEAD")
    case True
    then have "\<forall>status. wait_child cfg c pid status (w # ws) st = reap cfg c pid status st (w # ws)"
      by (simp add: wait_child.simps)
    then show ?thesis using True by blast
  next
    case False
    then have "\<forall>status. wait_child cfg c pid status (w # ws) st
                 = wait_child cfg c pid status ws (sched_sleep_on w st)"
      by (simp add: wait_child.simps)
    then show ?thesis using Cons.IH [of "sched_sleep_on w st"] by simp
  qed
qed

lemma wait_any_form:
  "(\<exists>s. \<forall>status. wait_any cfg status ws st = Blocked s)
   \<or> (\<exists>c sk wk. p_state (procs sk c) = PROC_DEAD
          \<and> (\<forall>status. wait_any cfg status ws st = reap cfg c (p_pid (procs sk c)) status sk wk))"
proof (induction ws arbitrary: st)
  case Nil
  show ?case
  proof (cases "List.find (\<lambda>c. p_state (procs st c) = PROC_DEAD) (p_children (procs st (curproc st)))")
    case None
    then show ?thesis by (simp add: wait_any.simps)
  next
    case (Some c)
    then have d: "p_state (procs st c) = PROC_DEAD" by (auto simp: find_Some_iff)
    have "\<forall>status. wait_any cfg status [] st = reap cfg c (p_pid (procs st c)) status st []"
      using Some by (simp add: wait_any.simps)
    then show ?thesis using d by blast
  qed
next
  case (Cons w ws)
  show ?case
  proof (cases "List.find (\<lambda>c. p_state (procs st c) = PROC_DEAD) (p_children (procs st (curproc st)))")
    case None
    then have "\<forall>status. wait_any cfg status (w # ws) st = wait_any cfg status ws (sched_sleep_on w st)"
      by (simp add: wait_any.simps)
    then show ?thesis using Cons.IH [of "sched_sleep_on w st"] by simp
  next
    case (Some c)
    then have d: "p_state (procs st c) = PROC_DEAD" by (auto simp: find_Some_iff)
    have "\<forall>status. wait_any cfg status (w # ws) st = reap cfg c (p_pid (procs st c)) status st (w # ws)"
      using Some by (simp add: wait_any.simps)
    then show ?thesis using d by blast
  qed
qed

lemma do_waitpid_enotsup:
  "pid = 0 \<or> pid < - 1 \<or> options \<noteq> 0
   \<Longrightarrow> do_waitpid cfg pid status options ws st = Return (Inl ENOTSUP) st ws"
  by (simp add: do_waitpid_def)

lemma do_waitpid_no_child:
  assumes "\<not> (pid = 0 \<or> pid < - 1 \<or> options \<noteq> 0)" and "no_such_child pid st"
  shows "do_waitpid cfg pid status options ws st = Return (Inl ECHILD) st ws"
proof (cases "0 < pid")
  case True
  then have "List.find (\<lambda>c. p_pid (procs st c) = pid) (p_children (procs st (curproc st))) = None"
    using assms(2) by (auto simp: no_such_child_def find_None_iff)
  then show ?thesis using assms(1) True by (simp add: do_waitpid_def)
next
  case False
  then show ?thesis using assms by (auto simp: do_waitpid_def no_such_child_def)
qed

lemma do_waitpid_has_child:
  assumes ok: "\<not> (pid = 0 \<or> pid < - 1 \<or> options \<noteq> 0)" and some: "\<not> no_such_child pid st"
  shows "(\<exists>s. \<forall>status. do_waitpid cfg pid status options ws st = Blocked s)
         \<or> (\<exists>c p sk wk. p_state (procs sk c) = PROC_DEAD
              \<and> (\<forall>status. do_waitpid cfg pid status options ws st = reap cfg c p status sk wk))"
proof (cases "0 < pid")
  case True
  then obtain c where c: "List.find (\<lambda>c. p_pid (procs st c) = pid) (p_children (procs st (curproc st))) = Some c"
    using some by (cases "List.find (\<lambda>c. p_pid (procs st c) = pid) (p_children (procs st (curproc st)))")
      (auto simp: no_such_child_def find_None_iff)
  have eq: "\<And>status. do_waitpid cfg pid status options ws st = wait_child cfg c pid status ws st"
    using ok True c by (simp add: do_waitpid_def)
  from wait_child_form [of cfg c pid ws st] show ?thesis
  proof
    assume "\<exists>s. \<forall>status. wait_child cfg c pid status ws st = Blocked s"
    then show ?thesis using eq by simp
  next
    assume "\<exists>sk wk. p_state (procs sk c) = PROC_DEAD
               \<and> (\<forall>status. wait_child cfg c pid status ws st = reap cfg c pid status sk wk)"
    then obtain sk wk where "p_state (procs sk c) = PROC_DEAD"
      and "\<forall>status. do_waitpid cfg pid status options ws st = reap cfg c pid status sk wk"
      using eq by auto
    then show ?thesis by blast
  qed
next
  case False
  then have m1: "pid = - 1" using ok by linarith
  then have ne: "p_children (procs st (curproc st)) \<noteq> []" using some by (simp add: no_such_child_def)
  have eq: "\<And>status. do_waitpid cfg pid status options ws st = wait_any cfg status ws st"
    using ok m1 ne by (simp add: do_waitpid_def)
  from wait_any_form [of cfg ws st] show ?thesis
  proof
    assume "\<exists>s. \<forall>status. wait_any cfg status ws st = Blocked s"
    then show ?thesis using eq by simp
  next
    assume "\<exists>c sk wk. p_state (procs sk c) = PROC_DEAD
               \<and> (\<forall>status. wait_any cfg status ws st = reap cfg c (p_pid (procs sk c)) status sk wk)"
    then obtain c sk wk where "p_state (procs sk c) = PROC_DEAD"
      and "\<forall>status. do_waitpid cfg pid status options ws st = reap cfg c (p_pid (procs sk c)) status sk wk"
      using eq by auto
    then show ?thesis by blast
  qed
qed

text \<open>
  The same, with the wakeup at which the loop ends: the state then is the one after the
  first \<open>j\<close> wakeups, and the wakeups left are the others.
\<close>

lemma wait_child_at:
  "(\<exists>s. \<forall>status. wait_child cfg c pid status ws st = Blocked s)
   \<or> (\<exists>j\<le>length ws.
         (\<forall>i<j. p_state (procs (after_wakeups st (take i ws)) c) \<noteq> PROC_DEAD)
         \<and> p_state (procs (after_wakeups st (take j ws)) c) = PROC_DEAD
         \<and> (\<forall>status. wait_child cfg c pid status ws st
               = reap cfg c pid status (after_wakeups st (take j ws)) (drop j ws)))"
proof (cases "\<exists>j\<le>length ws. p_state (procs (after_wakeups st (take j ws)) c) = PROC_DEAD")
  case False
  then have "\<forall>j\<le>length ws. p_state (procs (after_wakeups st (take j ws)) c) \<noteq> PROC_DEAD" by blast
  then have "\<forall>status. wait_child cfg c pid status ws st = Blocked (after_wakeups st ws)"
    using wait_child_blocked by blast
  then show ?thesis by blast
next
  case True
  define k where "k = (LEAST j. j \<le> length ws \<and> p_state (procs (after_wakeups st (take j ws)) c) = PROC_DEAD)"
  from True have k: "k \<le> length ws \<and> p_state (procs (after_wakeups st (take k ws)) c) = PROC_DEAD"
    unfolding k_def by - (erule exE, erule LeastI)
  have least: "\<forall>i<k. p_state (procs (after_wakeups st (take i ws)) c) \<noteq> PROC_DEAD"
  proof (intro allI impI)
    fix i assume i: "i < k"
    then have "\<not> (i \<le> length ws \<and> p_state (procs (after_wakeups st (take i ws)) c) = PROC_DEAD)"
      unfolding k_def by (rule not_less_Least)
    then show "p_state (procs (after_wakeups st (take i ws)) c) \<noteq> PROC_DEAD" using i k by simp
  qed
  have "\<forall>status. wait_child cfg c pid status ws st
               = reap cfg c pid status (after_wakeups st (take k ws)) (drop k ws)"
    using wait_child_returns [of k ws st c cfg pid] k least by blast
  then show ?thesis using k least by blast
qed

lemma wait_any_at:
  "(\<exists>s. \<forall>status. wait_any cfg status ws st = Blocked s)
   \<or> (\<exists>c j. j \<le> length ws
         \<and> List.find (\<lambda>c. p_state (procs (after_wakeups st (take j ws)) c) = PROC_DEAD)
              (p_children (procs (after_wakeups st (take j ws)) (curproc st))) = Some c
         \<and> (\<forall>status. wait_any cfg status ws st
               = reap cfg c (p_pid (procs (after_wakeups st (take j ws)) c)) status
                   (after_wakeups st (take j ws)) (drop j ws)))"
proof (induction ws arbitrary: st)
  case Nil
  show ?case
  proof (cases "List.find (\<lambda>c. p_state (procs st c) = PROC_DEAD) (p_children (procs st (curproc st)))")
    case None
    then show ?thesis by (simp add: wait_any.simps)
  next
    case (Some c)
    have "\<forall>status. wait_any cfg status [] st = reap cfg c (p_pid (procs st c)) status st []"
      using Some by (simp add: wait_any.simps)
    then show ?thesis using Some by (auto simp: after_wakeups_simps)
  qed
next
  case (Cons w ws)
  show ?case
  proof (cases "List.find (\<lambda>c. p_state (procs st c) = PROC_DEAD) (p_children (procs st (curproc st)))")
    case None
    then have eq: "\<forall>status. wait_any cfg status (w # ws) st = wait_any cfg status ws (sched_sleep_on w st)"
      by (simp add: wait_any.simps)
    have cur: "curproc (sched_sleep_on w st) = curproc st" by (simp add: sched_sleep_on_def)
    from Cons.IH [of "sched_sleep_on w st"] show ?thesis
    proof
      assume "\<exists>s. \<forall>status. wait_any cfg status ws (sched_sleep_on w st) = Blocked s"
      then show ?thesis using eq by simp
    next
      assume "\<exists>c j. j \<le> length ws
         \<and> List.find (\<lambda>c. p_state (procs (after_wakeups (sched_sleep_on w st) (take j ws)) c) = PROC_DEAD)
              (p_children (procs (after_wakeups (sched_sleep_on w st) (take j ws)) (curproc (sched_sleep_on w st)))) = Some c
         \<and> (\<forall>status. wait_any cfg status ws (sched_sleep_on w st)
               = reap cfg c (p_pid (procs (after_wakeups (sched_sleep_on w st) (take j ws)) c)) status
                   (after_wakeups (sched_sleep_on w st) (take j ws)) (drop j ws))"
      then obtain c j where j: "j \<le> length ws"
        and f: "List.find (\<lambda>c. p_state (procs (after_wakeups (sched_sleep_on w st) (take j ws)) c) = PROC_DEAD)
              (p_children (procs (after_wakeups (sched_sleep_on w st) (take j ws)) (curproc st))) = Some c"
        and r: "\<forall>status. wait_any cfg status ws (sched_sleep_on w st)
               = reap cfg c (p_pid (procs (after_wakeups (sched_sleep_on w st) (take j ws)) c)) status
                   (after_wakeups (sched_sleep_on w st) (take j ws)) (drop j ws)"
        using cur by auto
      have "Suc j \<le> length (w # ws)
         \<and> List.find (\<lambda>c. p_state (procs (after_wakeups st (take (Suc j) (w # ws))) c) = PROC_DEAD)
              (p_children (procs (after_wakeups st (take (Suc j) (w # ws))) (curproc st))) = Some c
         \<and> (\<forall>status. wait_any cfg status (w # ws) st
               = reap cfg c (p_pid (procs (after_wakeups st (take (Suc j) (w # ws))) c)) status
                   (after_wakeups st (take (Suc j) (w # ws))) (drop (Suc j) (w # ws)))"
        using j f r eq by (simp add: after_wakeups_simps)
      then show ?thesis by blast
    qed
  next
    case (Some c)
    have "\<forall>status. wait_any cfg status (w # ws) st = reap cfg c (p_pid (procs st c)) status st (w # ws)"
      using Some by (simp add: wait_any.simps)
    then have "0 \<le> length (w # ws)
         \<and> List.find (\<lambda>c. p_state (procs (after_wakeups st (take 0 (w # ws))) c) = PROC_DEAD)
              (p_children (procs (after_wakeups st (take 0 (w # ws))) (curproc st))) = Some c
         \<and> (\<forall>status. wait_any cfg status (w # ws) st
               = reap cfg c (p_pid (procs (after_wakeups st (take 0 (w # ws))) c)) status
                   (after_wakeups st (take 0 (w # ws))) (drop 0 (w # ws)))"
      using Some by (simp add: after_wakeups_simps)
    then show ?thesis by blast
  qed
qed

lemma do_waitpid_reaps:
  assumes ok: "\<not> (pid = 0 \<or> pid < - 1 \<or> options \<noteq> 0)" and some: "\<not> no_such_child pid st"
  shows "(\<exists>s. \<forall>status. do_waitpid cfg pid status options ws st = Blocked s)
         \<or> (\<exists>c p j. j \<le> length ws
              \<and> (0 < pid \<and> p = pid
                    \<and> List.find (\<lambda>c. p_pid (procs st c) = pid) (p_children (procs st (curproc st))) = Some c
                 \<or> pid = - 1 \<and> p = p_pid (procs (after_wakeups st (take j ws)) c)
                    \<and> List.find (\<lambda>c. p_state (procs (after_wakeups st (take j ws)) c) = PROC_DEAD)
                         (p_children (procs (after_wakeups st (take j ws)) (curproc st))) = Some c)
              \<and> p_state (procs (after_wakeups st (take j ws)) c) = PROC_DEAD
              \<and> (\<forall>status. do_waitpid cfg pid status options ws st
                    = reap cfg c p status (after_wakeups st (take j ws)) (drop j ws)))"
proof (cases "0 < pid")
  case True
  then obtain c where c: "List.find (\<lambda>c. p_pid (procs st c) = pid) (p_children (procs st (curproc st))) = Some c"
    using some by (cases "List.find (\<lambda>c. p_pid (procs st c) = pid) (p_children (procs st (curproc st)))")
      (auto simp: no_such_child_def find_None_iff)
  have eq: "\<And>status. do_waitpid cfg pid status options ws st = wait_child cfg c pid status ws st"
    using ok True c by (simp add: do_waitpid_def)
  from wait_child_at [of cfg c pid ws st] show ?thesis
  proof
    assume "\<exists>s. \<forall>status. wait_child cfg c pid status ws st = Blocked s"
    then show ?thesis using eq by simp
  next
    assume "\<exists>j\<le>length ws.
         (\<forall>i<j. p_state (procs (after_wakeups st (take i ws)) c) \<noteq> PROC_DEAD)
         \<and> p_state (procs (after_wakeups st (take j ws)) c) = PROC_DEAD
         \<and> (\<forall>status. wait_child cfg c pid status ws st
               = reap cfg c pid status (after_wakeups st (take j ws)) (drop j ws))"
    then obtain j where "j \<le> length ws"
      and "p_state (procs (after_wakeups st (take j ws)) c) = PROC_DEAD"
      and "\<forall>status. do_waitpid cfg pid status options ws st
               = reap cfg c pid status (after_wakeups st (take j ws)) (drop j ws)"
      using eq by auto
    then show ?thesis using True c by blast
  qed
next
  case False
  then have m1: "pid = - 1" using ok by linarith
  then have ne: "p_children (procs st (curproc st)) \<noteq> []" using some by (simp add: no_such_child_def)
  have eq: "\<And>status. do_waitpid cfg pid status options ws st = wait_any cfg status ws st"
    using ok m1 ne by (simp add: do_waitpid_def)
  from wait_any_at [of cfg ws st] show ?thesis
  proof
    assume "\<exists>s. \<forall>status. wait_any cfg status ws st = Blocked s"
    then show ?thesis using eq by simp
  next
    assume "\<exists>c j. j \<le> length ws
         \<and> List.find (\<lambda>c. p_state (procs (after_wakeups st (take j ws)) c) = PROC_DEAD)
              (p_children (procs (after_wakeups st (take j ws)) (curproc st))) = Some c
         \<and> (\<forall>status. wait_any cfg status ws st
               = reap cfg c (p_pid (procs (after_wakeups st (take j ws)) c)) status
                   (after_wakeups st (take j ws)) (drop j ws))"
    then obtain c j where j: "j \<le> length ws"
      and f: "List.find (\<lambda>c. p_state (procs (after_wakeups st (take j ws)) c) = PROC_DEAD)
              (p_children (procs (after_wakeups st (take j ws)) (curproc st))) = Some c"
      and r: "\<forall>status. do_waitpid cfg pid status options ws st
               = reap cfg c (p_pid (procs (after_wakeups st (take j ws)) c)) status
                   (after_wakeups st (take j ws)) (drop j ws)"
      using eq by auto
    have d: "p_state (procs (after_wakeups st (take j ws)) c) = PROC_DEAD"
      using find_SomeD [OF f] by simp
    show ?thesis using m1 j f r d by blast
  qed
qed





subsection \<open>Cleanup and reparenting\<close>

lemma reparent_child_Inr:
  assumes "proc_initproc s \<noteq> NULL"
  shows "\<exists>s'. reparent_child x s = Inr s'
    \<and> proc_initproc s' = proc_initproc s \<and> curproc s' = curproc s \<and> curthr s' = curthr s
    \<and> proc_list s' = proc_list s \<and> proc_slab s' = proc_slab s \<and> next_pid s' = next_pid s
    \<and> woken s' = woken s \<and> kthreads s' = kthreads s \<and> files s' = files s
    \<and> vnodes s' = vnodes s \<and> user_mem s' = user_mem s
    \<and> (\<forall>a. p_state (procs s' a) = p_state (procs s a) \<and> p_status (procs s' a) = p_status (procs s a)
          \<and> p_pid (procs s' a) = p_pid (procs s a) \<and> p_threads (procs s' a) = p_threads (procs s a)
          \<and> p_pml4 (procs s' a) = p_pml4 (procs s a) \<and> p_cwd (procs s' a) = p_cwd (procs s a)
          \<and> p_files (procs s' a) = p_files (procs s a) \<and> p_name (procs s' a) = p_name (procs s a)
          \<and> p_pproc (procs s' a) = (if a = x then proc_initproc s else p_pproc (procs s a))
          \<and> p_children (procs s' a) = removeAll x (p_children (procs s a))
                @ (if a = proc_initproc s then [x] else []))"
  using assms
  by (simp add: reparent_child_def upd_proc_def list_insert_tail_child_def list_remove_child_def)

lemma reparent_iterate:
  assumes "proc_initproc s \<noteq> NULL"
  shows "\<exists>s'. list_iterate xs reparent_child s = Inr s'
    \<and> proc_initproc s' = proc_initproc s \<and> curproc s' = curproc s \<and> curthr s' = curthr s
    \<and> proc_list s' = proc_list s \<and> proc_slab s' = proc_slab s \<and> next_pid s' = next_pid s
    \<and> woken s' = woken s \<and> kthreads s' = kthreads s \<and> files s' = files s
    \<and> vnodes s' = vnodes s \<and> user_mem s' = user_mem s
    \<and> (\<forall>a. p_state (procs s' a) = p_state (procs s a) \<and> p_status (procs s' a) = p_status (procs s a)
          \<and> p_pid (procs s' a) = p_pid (procs s a) \<and> p_threads (procs s' a) = p_threads (procs s a)
          \<and> p_pml4 (procs s' a) = p_pml4 (procs s a) \<and> p_cwd (procs s' a) = p_cwd (procs s a)
          \<and> p_files (procs s' a) = p_files (procs s a) \<and> p_name (procs s' a) = p_name (procs s a)
          \<and> p_pproc (procs s' a) = (if a \<in> set xs then proc_initproc s else p_pproc (procs s a))
          \<and> p_children (procs s' a) = filter (\<lambda>c. c \<notin> set xs) (p_children (procs s a))
                @ (if a = proc_initproc s then remdups xs else []))"
  using assms
proof (induction xs arbitrary: s)
  case Nil
  then show ?case by simp
next
  case (Cons x xs)
  from reparent_child_Inr [OF Cons.prems, of x] obtain s1 where
    s1: "reparent_child x s = Inr s1" and i1: "proc_initproc s1 = proc_initproc s"
    and f1: "curproc s1 = curproc s" "curthr s1 = curthr s"
     "proc_list s1 = proc_list s" "proc_slab s1 = proc_slab s" "next_pid s1 = next_pid s"
     "woken s1 = woken s" "kthreads s1 = kthreads s" "files s1 = files s"
     "vnodes s1 = vnodes s" "user_mem s1 = user_mem s"
    and p1: "\<And>a. p_state (procs s1 a) = p_state (procs s a)" "\<And>a. p_status (procs s1 a) = p_status (procs s a)"
      "\<And>a. p_pid (procs s1 a) = p_pid (procs s a)" "\<And>a. p_threads (procs s1 a) = p_threads (procs s a)"
      "\<And>a. p_pml4 (procs s1 a) = p_pml4 (procs s a)" "\<And>a. p_cwd (procs s1 a) = p_cwd (procs s a)"
      "\<And>a. p_files (procs s1 a) = p_files (procs s a)" "\<And>a. p_name (procs s1 a) = p_name (procs s a)"
    and pp1: "\<And>a. p_pproc (procs s1 a) = (if a = x then proc_initproc s else p_pproc (procs s a))"
    and pc1: "\<And>a. p_children (procs s1 a) = removeAll x (p_children (procs s a))
                @ (if a = proc_initproc s then [x] else [])"
    by blast
  have n1: "proc_initproc s1 \<noteq> NULL" using i1 Cons.prems by simp
  from Cons.IH [OF n1] obtain s' where
    s': "list_iterate xs reparent_child s1 = Inr s'" and i2: "proc_initproc s' = proc_initproc s1"
    and f2: "curproc s' = curproc s1" "curthr s' = curthr s1"
     "proc_list s' = proc_list s1" "proc_slab s' = proc_slab s1" "next_pid s' = next_pid s1"
     "woken s' = woken s1" "kthreads s' = kthreads s1" "files s' = files s1"
     "vnodes s' = vnodes s1" "user_mem s' = user_mem s1"
    and p2: "\<And>a. p_state (procs s' a) = p_state (procs s1 a)" "\<And>a. p_status (procs s' a) = p_status (procs s1 a)"
      "\<And>a. p_pid (procs s' a) = p_pid (procs s1 a)" "\<And>a. p_threads (procs s' a) = p_threads (procs s1 a)"
      "\<And>a. p_pml4 (procs s' a) = p_pml4 (procs s1 a)" "\<And>a. p_cwd (procs s' a) = p_cwd (procs s1 a)"
      "\<And>a. p_files (procs s' a) = p_files (procs s1 a)" "\<And>a. p_name (procs s' a) = p_name (procs s1 a)"
    and pp2: "\<And>a. p_pproc (procs s' a) = (if a \<in> set xs then proc_initproc s1 else p_pproc (procs s1 a))"
    and pc2: "\<And>a. p_children (procs s' a) = filter (\<lambda>c. c \<notin> set xs) (p_children (procs s1 a))
                @ (if a = proc_initproc s1 then remdups xs else [])"
    by blast
  have run: "list_iterate (x # xs) reparent_child s = Inr s'" using s1 s' by simp
  have pp: "\<And>a. p_pproc (procs s' a) = (if a \<in> set (x # xs) then proc_initproc s else p_pproc (procs s a))"
    by (simp add: pp2 pp1 i1)
  have flt: "\<And>ys. filter (\<lambda>c. c \<notin> set xs) (removeAll x ys) = filter (\<lambda>c. c \<notin> set (x # xs)) ys"
  proof -
    fix ys show "filter (\<lambda>c. c \<notin> set xs) (removeAll x ys) = filter (\<lambda>c. c \<notin> set (x # xs)) ys"
      by (induction ys) auto
  qed
  have pc: "\<And>a. p_children (procs s' a) = filter (\<lambda>c. c \<notin> set (x # xs)) (p_children (procs s a))
                @ (if a = proc_initproc s then remdups (x # xs) else [])"
    by (simp add: pc2 pc1 i1 flt del: set_simps)
  show ?case
    apply (rule exI [of _ s'])
    apply (simp only: run i2 i1 f2 f1 p2 p1 pp pc)
    apply simp
    done
qed

lemma cleanup_mark_frame:
  "proc_list (cleanup_mark v st) = proc_list st" "proc_slab (cleanup_mark v st) = proc_slab st"
  "curproc (cleanup_mark v st) = curproc st" "curthr (cleanup_mark v st) = curthr st"
  "proc_initproc (cleanup_mark v st) = proc_initproc st" "next_pid (cleanup_mark v st) = next_pid st"
  "woken (cleanup_mark v st) = woken st" "kthreads (cleanup_mark v st) = kthreads st"
  "files (cleanup_mark v st) = files st" "vnodes (cleanup_mark v st) = vnodes st"
  "user_mem (cleanup_mark v st) = user_mem st"
  "p_state (procs (cleanup_mark v st) a) = (if a = curproc st then PROC_DEAD else p_state (procs st a))"
  "p_status (procs (cleanup_mark v st) a) = (if a = curproc st then v else p_status (procs st a))"
  "p_pid (procs (cleanup_mark v st) a) = p_pid (procs st a)"
  "p_children (procs (cleanup_mark v st) a) = p_children (procs st a)"
  "p_pproc (procs (cleanup_mark v st) a) = p_pproc (procs st a)"
  "p_threads (procs (cleanup_mark v st) a) = p_threads (procs st a)"
  "p_pml4 (procs (cleanup_mark v st) a) = p_pml4 (procs st a)"
  "p_cwd (procs (cleanup_mark v st) a) = p_cwd (procs st a)"
  "p_files (procs (cleanup_mark v st) a) = p_files (procs st a)"
  by (simp_all add: cleanup_mark_def upd_proc_def)

lemma cleanup_release_frame:
  "proc_list (cleanup_release cfg st) = proc_list st" "proc_slab (cleanup_release cfg st) = proc_slab st"
  "curproc (cleanup_release cfg st) = curproc st" "curthr (cleanup_release cfg st) = curthr st"
  "proc_initproc (cleanup_release cfg st) = proc_initproc st" "next_pid (cleanup_release cfg st) = next_pid st"
  "woken (cleanup_release cfg st) = woken st" "kthreads (cleanup_release cfg st) = kthreads st"
  "user_mem (cleanup_release cfg st) = user_mem st"
  "p_state (procs (cleanup_release cfg st) a) = p_state (procs st a)"
  "p_status (procs (cleanup_release cfg st) a) = p_status (procs st a)"
  "p_pid (procs (cleanup_release cfg st) a) = p_pid (procs st a)"
  "p_children (procs (cleanup_release cfg st) a) = p_children (procs st a)"
  "p_pproc (procs (cleanup_release cfg st) a) = p_pproc (procs st a)"
  "p_threads (procs (cleanup_release cfg st) a) = p_threads (procs st a)"
  "p_pml4 (procs (cleanup_release cfg st) a) = p_pml4 (procs st a)"
  by (simp_all add: cleanup_release_def release_cwd_frame release_files_frame)

lemmas cleanup_head_frame = cleanup_release_frame cleanup_mark_frame

lemma cleanup_children_Inr:
  assumes "p_pid (procs s (curproc s)) \<noteq> PID_INIT cfg" and "proc_initproc s \<noteq> NULL"
  shows "\<exists>s'. cleanup_children cfg s = Inr s'
    \<and> proc_initproc s' = proc_initproc s \<and> curproc s' = curproc s \<and> curthr s' = curthr s
    \<and> proc_list s' = proc_list s \<and> proc_slab s' = proc_slab s \<and> next_pid s' = next_pid s
    \<and> woken s' = woken s \<and> kthreads s' = kthreads s \<and> files s' = files s
    \<and> vnodes s' = vnodes s \<and> user_mem s' = user_mem s
    \<and> (\<forall>a. p_state (procs s' a) = p_state (procs s a) \<and> p_status (procs s' a) = p_status (procs s a)
          \<and> p_pid (procs s' a) = p_pid (procs s a) \<and> p_threads (procs s' a) = p_threads (procs s a)
          \<and> p_pml4 (procs s' a) = p_pml4 (procs s a) \<and> p_cwd (procs s' a) = p_cwd (procs s a)
          \<and> p_files (procs s' a) = p_files (procs s a) \<and> p_name (procs s' a) = p_name (procs s a)
          \<and> p_pproc (procs s' a) = (if a \<in> set (p_children (procs s (curproc s)))
                                      then proc_initproc s else p_pproc (procs s a))
          \<and> p_children (procs s' a)
              = filter (\<lambda>c. c \<notin> set (p_children (procs s (curproc s)))) (p_children (procs s a))
                @ (if a = proc_initproc s then remdups (p_children (procs s (curproc s))) else []))"
  using assms(1) reparent_iterate [OF assms(2), of "p_children (procs s (curproc s))"]
  by (simp add: cleanup_children_def)

lemma list_iterate_reparent_cases:
  "list_iterate xs reparent_child s = Inr s' \<Longrightarrow> xs = [] \<and> s' = s \<or> proc_initproc s \<noteq> NULL"
  by (cases xs) (auto simp: reparent_child_def split: if_splits)

lemma cleanup_children_cases:
  assumes "cleanup_children cfg s = Inr s'"
  shows "p_pid (procs s (curproc s)) \<noteq> PID_INIT cfg
         \<and> (p_children (procs s (curproc s)) = [] \<and> s' = s \<or> proc_initproc s \<noteq> NULL)"
  using assms list_iterate_reparent_cases [of "p_children (procs s (curproc s))" s s']
  by (auto simp: cleanup_children_def split: if_splits)

lemma cleanup_children_keeps:
  assumes "cleanup_children cfg s = Inr s'"
  shows "proc_initproc s' = proc_initproc s" "curproc s' = curproc s" "curthr s' = curthr s"
    "proc_list s' = proc_list s" "proc_slab s' = proc_slab s" "next_pid s' = next_pid s"
    "woken s' = woken s" "kthreads s' = kthreads s" "files s' = files s"
    "vnodes s' = vnodes s" "user_mem s' = user_mem s"
    "p_state (procs s' a) = p_state (procs s a)" "p_status (procs s' a) = p_status (procs s a)"
    "p_pid (procs s' a) = p_pid (procs s a)" "p_threads (procs s' a) = p_threads (procs s a)"
    "p_pml4 (procs s' a) = p_pml4 (procs s a)" "p_cwd (procs s' a) = p_cwd (procs s a)"
    "p_files (procs s' a) = p_files (procs s a)"
proof -
  from cleanup_children_cases [OF assms]
  have pid: "p_pid (procs s (curproc s)) \<noteq> PID_INIT cfg"
    and alt: "p_children (procs s (curproc s)) = [] \<and> s' = s \<or> proc_initproc s \<noteq> NULL" by auto
  have all: "proc_initproc s' = proc_initproc s \<and> curproc s' = curproc s \<and> curthr s' = curthr s
    \<and> proc_list s' = proc_list s \<and> proc_slab s' = proc_slab s \<and> next_pid s' = next_pid s
    \<and> woken s' = woken s \<and> kthreads s' = kthreads s \<and> files s' = files s
    \<and> vnodes s' = vnodes s \<and> user_mem s' = user_mem s
    \<and> p_state (procs s' a) = p_state (procs s a) \<and> p_status (procs s' a) = p_status (procs s a)
    \<and> p_pid (procs s' a) = p_pid (procs s a) \<and> p_threads (procs s' a) = p_threads (procs s a)
    \<and> p_pml4 (procs s' a) = p_pml4 (procs s a) \<and> p_cwd (procs s' a) = p_cwd (procs s a)
    \<and> p_files (procs s' a) = p_files (procs s a)"
    using alt
  proof
    assume "p_children (procs s (curproc s)) = [] \<and> s' = s"
    then show ?thesis by simp
  next
    assume "proc_initproc s \<noteq> NULL"
    from cleanup_children_Inr [OF pid this] assms show ?thesis by auto
  qed
  then show "proc_initproc s' = proc_initproc s" "curproc s' = curproc s" "curthr s' = curthr s"
    "proc_list s' = proc_list s" "proc_slab s' = proc_slab s" "next_pid s' = next_pid s"
    "woken s' = woken s" "kthreads s' = kthreads s" "files s' = files s"
    "vnodes s' = vnodes s" "user_mem s' = user_mem s"
    "p_state (procs s' a) = p_state (procs s a)" "p_status (procs s' a) = p_status (procs s a)"
    "p_pid (procs s' a) = p_pid (procs s a)" "p_threads (procs s' a) = p_threads (procs s a)"
    "p_pml4 (procs s' a) = p_pml4 (procs s a)" "p_cwd (procs s' a) = p_cwd (procs s a)"
    "p_files (procs s' a) = p_files (procs s a)" by simp_all
qed

lemma cleanup_children_childless:
  "p_children (procs s (curproc s)) = [] \<Longrightarrow> cleanup_children cfg s = Inr s' \<Longrightarrow> s' = s"
  by (auto simp: cleanup_children_def split: if_splits)

lemma proc_cleanup_Inr:
  assumes "proc_cleanup cfg v s = Inr s'"
  shows "curproc s' = curproc s" "curthr s' = curthr s" "proc_list s' = proc_list s"
    "proc_slab s' = proc_slab s" "proc_initproc s' = proc_initproc s" "next_pid s' = next_pid s"
    "woken s' = woken s" "kthreads s' = kthreads s" "user_mem s' = user_mem s"
    "p_state (procs s' a) = (if a = curproc s then PROC_DEAD else p_state (procs s a))"
    "p_status (procs s' a) = (if a = curproc s then v else p_status (procs s a))"
    "p_pid (procs s' a) = p_pid (procs s a)" "p_threads (procs s' a) = p_threads (procs s a)"
    "p_pml4 (procs s' a) = p_pml4 (procs s a)"
    "p_pid (procs s (curproc s)) \<noteq> PID_INIT cfg"
proof -
  let ?m = "cleanup_release cfg (cleanup_mark v s)"
  have c: "cleanup_children cfg ?m = Inr s'" using assms by (simp add: proc_cleanup_def)
  note k = cleanup_children_keeps [OF c]
  show "curproc s' = curproc s" "curthr s' = curthr s" "proc_list s' = proc_list s"
    "proc_slab s' = proc_slab s" "proc_initproc s' = proc_initproc s" "next_pid s' = next_pid s"
    "woken s' = woken s" "kthreads s' = kthreads s" "user_mem s' = user_mem s"
    "p_state (procs s' a) = (if a = curproc s then PROC_DEAD else p_state (procs s a))"
    "p_status (procs s' a) = (if a = curproc s then v else p_status (procs s a))"
    "p_pid (procs s' a) = p_pid (procs s a)" "p_threads (procs s' a) = p_threads (procs s a)"
    "p_pml4 (procs s' a) = p_pml4 (procs s a)"
    by (simp_all only: k cleanup_head_frame)
  show "p_pid (procs s (curproc s)) \<noteq> PID_INIT cfg"
    using cleanup_children_cases [OF c] by (simp add: cleanup_head_frame)
qed

lemma proc_thread_exiting_Inr:
  assumes "proc_thread_exiting cfg v s = Inr s'"
  shows "curproc s' = curproc s" "curthr s' = curthr s" "proc_list s' = proc_list s"
    "proc_slab s' = proc_slab s" "proc_initproc s' = proc_initproc s" "next_pid s' = next_pid s"
    "user_mem s' = user_mem s"
    "kthreads s' = (kthreads s)(curthr s := (kthreads s (curthr s))\<lparr>kt_retval := v, kt_state := KT_EXITED\<rparr>)"
    "p_state (procs s' a) = (if a = curproc s then PROC_DEAD else p_state (procs s a))"
    "p_status (procs s' a) = (if a = curproc s then v else p_status (procs s a))"
    "p_pid (procs s' a) = p_pid (procs s a)" "p_threads (procs s' a) = p_threads (procs s a)"
    "p_pml4 (procs s' a) = p_pml4 (procs s a)"
    "p_pid (procs s (curproc s)) \<noteq> PID_INIT cfg"
proof -
  from assms obtain s1 where c: "proc_cleanup cfg v s = Inr s1"
    and e: "s' = (upd_thr (curthr s1) (\<lambda>t. t\<lparr>kt_retval := v, kt_state := KT_EXITED\<rparr>) s1)
                 \<lparr>woken := woken s1 @ [p_pproc (procs s1 (curproc s1))]\<rparr>"
    by (auto simp: proc_thread_exiting_def Let_def upd_thr_def split: sum.splits)
  note k = proc_cleanup_Inr [OF c]
  show "curproc s' = curproc s" "curthr s' = curthr s" "proc_list s' = proc_list s"
    "proc_slab s' = proc_slab s" "proc_initproc s' = proc_initproc s" "next_pid s' = next_pid s"
    "user_mem s' = user_mem s"
    "kthreads s' = (kthreads s)(curthr s := (kthreads s (curthr s))\<lparr>kt_retval := v, kt_state := KT_EXITED\<rparr>)"
    "p_state (procs s' a) = (if a = curproc s then PROC_DEAD else p_state (procs s a))"
    "p_status (procs s' a) = (if a = curproc s then v else p_status (procs s a))"
    "p_pid (procs s' a) = p_pid (procs s a)" "p_threads (procs s' a) = p_threads (procs s a)"
    "p_pml4 (procs s' a) = p_pml4 (procs s a)"
    "p_pid (procs s (curproc s)) \<noteq> PID_INIT cfg"
    by (simp_all add: e upd_thr_def k)
qed

lemma proc_cleanup_resources:
  assumes "length (p_files (procs st (curproc st))) = NFILES cfg"
    and "proc_cleanup cfg v st = Inr st1"
  shows "p_files (procs st1 (curproc st)) = replicate (NFILES cfg) NULL"
    and "p_cwd (procs st1 (curproc st)) = NULL"
    and "f \<noteq> NULL \<Longrightarrow> f_refcount (files st1 f)
           = f_refcount (files st f) - int (count_list (p_files (procs st (curproc st))) f)"
    and "vnodes st1 = (if p_cwd (procs st (curproc st)) \<noteq> NULL
                       then (vnodes st)(p_cwd (procs st (curproc st))
                              := vnodes st (p_cwd (procs st (curproc st))) - 1)
                       else vnodes st)"
proof -
  let ?m = "cleanup_mark v st"
  let ?r = "release_files cfg (curproc st) ?m"
  let ?c = "release_cwd (curproc st) ?r"
  have rel: "cleanup_release cfg ?m = ?c" by (simp add: cleanup_release_def cleanup_mark_frame)
  have k: "cleanup_children cfg ?c = Inr st1" using assms(2) by (simp add: proc_cleanup_def rel)
  note K = cleanup_children_keeps [OF k]
  have len: "length (p_files (procs ?m (curproc st))) = NFILES cfg"
    using assms(1) by (simp add: cleanup_mark_frame)
  note P = release_files_precise [OF len]
  show "p_files (procs st1 (curproc st)) = replicate (NFILES cfg) NULL"
    by (simp add: K release_cwd_frame P)
  show "p_cwd (procs st1 (curproc st)) = NULL"
    by (simp add: K release_cwd_effect)
  show "f \<noteq> NULL \<Longrightarrow> f_refcount (files st1 f)
           = f_refcount (files st f) - int (count_list (p_files (procs st (curproc st))) f)"
    by (simp add: K release_cwd_frame P cleanup_mark_frame)
  show "vnodes st1 = (if p_cwd (procs st (curproc st)) \<noteq> NULL
                       then (vnodes st)(p_cwd (procs st (curproc st))
                              := vnodes st (p_cwd (procs st (curproc st))) - 1)
                       else vnodes st)"
    by (simp add: K release_cwd_effect release_files_frame cleanup_mark_frame)
qed

lemma proc_cleanup_empty_table:
  assumes "\<forall>fd<NFILES cfg. p_files (procs st (curproc st)) ! fd = NULL"
    and "p_children (procs st (curproc st)) = []"
    and "proc_cleanup cfg v st = Inr st1"
  shows "files st1 = files st"
    and "vnodes st1 = (if p_cwd (procs st (curproc st)) \<noteq> NULL
                       then (vnodes st)(p_cwd (procs st (curproc st))
                              := vnodes st (p_cwd (procs st (curproc st))) - 1)
                       else vnodes st)"
    and "p_files (procs st1 a) = p_files (procs st a)"
    and "p_cwd (procs st1 (curproc st)) = NULL"
    and "p_children (procs st1 a) = p_children (procs st a)"
proof -
  let ?m = "cleanup_mark v st"
  have "\<forall>fd<NFILES cfg. p_files (procs ?m (curproc st)) ! fd = NULL"
    using assms(1) by (simp add: cleanup_mark_frame)
  then have rf: "release_files cfg (curproc st) ?m = ?m" by (rule release_files_noop)
  have rel: "cleanup_release cfg ?m = release_cwd (curproc st) ?m"
    by (simp add: cleanup_release_def cleanup_mark_frame rf)
  have kids: "p_children (procs (release_cwd (curproc st) ?m) (curproc (release_cwd (curproc st) ?m))) = []"
    using assms(2) by (simp add: release_cwd_frame cleanup_mark_frame)
  have "cleanup_children cfg (release_cwd (curproc st) ?m) = Inr st1"
    using assms(3) by (simp add: proc_cleanup_def rel)
  from cleanup_children_childless [OF kids this]
  have e: "st1 = release_cwd (curproc st) ?m" .
  show "files st1 = files st" by (simp add: e release_cwd_frame cleanup_mark_frame)
  show "vnodes st1 = (if p_cwd (procs st (curproc st)) \<noteq> NULL
                       then (vnodes st)(p_cwd (procs st (curproc st))
                              := vnodes st (p_cwd (procs st (curproc st))) - 1)
                       else vnodes st)"
    by (simp add: e release_cwd_effect cleanup_mark_frame)
  show "p_files (procs st1 a) = p_files (procs st a)"
    by (simp add: e release_cwd_frame cleanup_mark_frame)
  show "p_cwd (procs st1 (curproc st)) = NULL" by (simp add: e release_cwd_effect)
  show "p_children (procs st1 a) = p_children (procs st a)"
    by (simp add: e release_cwd_frame cleanup_mark_frame)
qed


subsection \<open>Cancellation\<close>

lemma cancel_fold:
  "fold (\<lambda>thr s. kthread_cancel thr v s) ts s =
     s\<lparr>kthreads := (\<lambda>t. if t \<in> set ts
                           then (kthreads s t)\<lparr>kt_retval := v, kt_cancelled := True\<rparr>
                           else kthreads s t)\<rparr>"
proof (induction ts arbitrary: s)
  case Nil
  then show ?case by simp
next
  case (Cons a ts)
  let ?s1 = "kthread_cancel a v s"
  have "fold (\<lambda>thr s. kthread_cancel thr v s) (a # ts) s
        = fold (\<lambda>thr s. kthread_cancel thr v s) ts ?s1" by simp
  also have "\<dots> = ?s1\<lparr>kthreads := (\<lambda>t. if t \<in> set ts
                           then (kthreads ?s1 t)\<lparr>kt_retval := v, kt_cancelled := True\<rparr>
                           else kthreads ?s1 t)\<rparr>"
    by (rule Cons.IH)
  also have "\<dots> = s\<lparr>kthreads := (\<lambda>t. if t \<in> set (a # ts)
                           then (kthreads s t)\<lparr>kt_retval := v, kt_cancelled := True\<rparr>
                           else kthreads s t)\<rparr>"
    by (rule kstate.equality) (auto simp: kthread_cancel_def upd_thr_def fun_eq_iff)
  finally show ?case .
qed

lemma proc_kill_eq:
  "proc_kill p v s =
     s\<lparr>kthreads := (\<lambda>t. if t \<in> set (p_threads (procs s p))
                           then (kthreads s t)\<lparr>kt_retval := v, kt_cancelled := True\<rparr>
                           else kthreads s t)\<rparr>"
  by (simp add: proc_kill_def cancel_fold)

lemma kill_fold:
  "fold (\<lambda>proc s. if kill_target cfg s proc then proc_kill proc v s else s) ps s =
     s\<lparr>kthreads := (\<lambda>t. if \<exists>p\<in>set ps. kill_target cfg s p \<and> t \<in> set (p_threads (procs s p))
                           then (kthreads s t)\<lparr>kt_retval := v, kt_cancelled := True\<rparr>
                           else kthreads s t)\<rparr>"
proof (induction ps arbitrary: s)
  case Nil
  then show ?case by simp
next
  case (Cons a ps)
  let ?s1 = "if kill_target cfg s a then proc_kill a v s else s"
  have same: "procs ?s1 = procs s" "curproc ?s1 = curproc s"
    by (simp_all add: proc_kill_eq)
  have kt: "\<And>p. kill_target cfg ?s1 p = kill_target cfg s p"
    by (simp add: kill_target_def proc_kill_eq)
  have "fold (\<lambda>proc s. if kill_target cfg s proc then proc_kill proc v s else s) (a # ps) s
        = fold (\<lambda>proc s. if kill_target cfg s proc then proc_kill proc v s else s) ps ?s1"
    by simp
  also have "\<dots> = ?s1\<lparr>kthreads := (\<lambda>t. if \<exists>p\<in>set ps. kill_target cfg ?s1 p \<and> t \<in> set (p_threads (procs ?s1 p))
                           then (kthreads ?s1 t)\<lparr>kt_retval := v, kt_cancelled := True\<rparr>
                           else kthreads ?s1 t)\<rparr>"
    by (rule Cons.IH)
  also have "\<dots> = s\<lparr>kthreads := (\<lambda>t. if \<exists>p\<in>set (a # ps). kill_target cfg s p \<and> t \<in> set (p_threads (procs s p))
                           then (kthreads s t)\<lparr>kt_retval := v, kt_cancelled := True\<rparr>
                           else kthreads s t)\<rparr>"
    unfolding kt same
    by (rule kstate.equality) (auto simp: proc_kill_eq fun_eq_iff)
  finally show ?case .
qed

lemma kill_others_eq:
  "kill_others cfg st =
     st\<lparr>kthreads := (\<lambda>t. if \<exists>p\<in>set (proc_list st). kill_target cfg st p \<and> t \<in> set (p_threads (procs st p))
                           then (kthreads st t)\<lparr>kt_retval := - 1, kt_cancelled := True\<rparr>
                           else kthreads st t)\<rparr>"
  using kill_fold [of cfg "- 1" "proc_list st" st]
  by (simp add: kill_others_def kill_target_def [abs_def])


subsection \<open>Creation\<close>

lemma clone_files_Inr:
  "clone_files fds new st = Inr st' \<Longrightarrow> \<forall>fd\<in>set fds. p_files (procs st new) ! fd = NULL
   \<Longrightarrow> st' = st \<and> (\<forall>fd\<in>set fds. p_files (procs st (curproc st)) ! fd = NULL)"
proof (induction fds arbitrary: st)
  case Nil
  then show ?case by simp
next
  case (Cons fd fds)
  show ?case
  proof (cases "p_files (procs st (curproc st)) ! fd = NULL")
    case True
    then show ?thesis using Cons by simp
  next
    case False
    then have "clone_files (fd # fds) new st = Inl NullDeref"
      using Cons.prems(2) by (simp add: memcpy_file_def)
    then show ?thesis using Cons.prems(1) by simp
  qed
qed

lemma clone_files_fault:
  "fd \<in> set fds \<Longrightarrow> p_files (procs st (curproc st)) ! fd \<noteq> NULL
   \<Longrightarrow> \<forall>fd\<in>set fds. p_files (procs st new) ! fd = NULL
   \<Longrightarrow> clone_files fds new st = Inl NullDeref"
proof (induction fds)
  case Nil
  then show ?case by simp
next
  case (Cons a fds)
  show ?case
  proof (cases "p_files (procs st (curproc st)) ! a = NULL")
    case True
    then have "fd \<in> set fds" using Cons.prems by auto
    then show ?thesis using True Cons by simp
  next
    case False
    then show ?thesis using Cons.prems(3) by (simp add: memcpy_file_def)
  qed
qed

lemma create_init_slots:
  "\<forall>fd\<in>set [0..<NFILES cfg]. p_files (procs (create_init cfg pid new pml4 name st) new) ! fd = NULL"
  by (simp add: create_init_def new_proc_def)

lemma proc_create_faults:
  assumes "proc_getid cfg st0 = Some (Inr (pid, st))" and "0 \<le> pid"
    and "new \<noteq> NULL" and "new \<noteq> curproc st0"
    and "fd < NFILES cfg" and "p_files (procs st0 (curproc st0)) ! fd \<noteq> NULL"
  shows "proc_create cfg new pml4 name st0 = Some (Inl NullDeref)"
proof -
  from proc_getid_Inr [OF assms(1)] assms(2)
  have st: "st = st0\<lparr>next_pid := pid_succ cfg pid\<rparr>" by auto
  let ?s1 = "create_init cfg pid new pml4 name st"
  have a: "p_files (procs ?s1 (curproc ?s1)) ! fd \<noteq> NULL"
    using assms(4,6) by (simp add: create_init_def st)
  have b: "fd \<in> set [0..<NFILES cfg]" using assms(5) by simp
  have "clone_files [0..<NFILES cfg] new ?s1 = Inl NullDeref"
    by (rule clone_files_fault [OF b a create_init_slots])
  then show ?thesis using assms(1,2,3)
    by (simp add: proc_create_def create_init_def)
qed

lemma proc_create_Inr:
  assumes "proc_create cfg new pml4 name st0 = Some (Inr (new, s1))" and "new \<noteq> NULL"
  shows "\<exists>pid. 0 < pid \<and> \<not> pid_in_use st0 pid
     \<and> (\<forall>fd<NFILES cfg. p_files (procs (create_init cfg pid new pml4 name st0) (curproc st0)) ! fd = NULL)
     \<and> s1 = (let st1 = create_init cfg pid new pml4 name (st0\<lparr>next_pid := pid_succ cfg pid\<rparr>);
                  st3 = clone_cwd new st1;
                  st4 = (if pid = PID_INIT cfg then st3\<lparr>proc_initproc := new\<rparr> else st3);
                  st5 = list_insert_tail_child (curproc st0) new st4
              in st5\<lparr>proc_list := proc_list st5 @ [new]\<rparr>)"
proof -
  from assms obtain pid st where g: "proc_getid cfg st0 = Some (Inr (pid, st))"
    by (auto simp: proc_create_def split: option.splits sum.splits)
  have nn: "\<not> pid < 0" using assms g by (auto simp: proc_create_def split: if_splits)
  from proc_getid_Inr [OF g] nn
  have pid: "0 < pid" "\<not> pid_in_use st0 pid" and st: "st = st0\<lparr>next_pid := pid_succ cfg pid\<rparr>"
    by auto
  let ?s1 = "create_init cfg pid new pml4 name st"
  from assms g nn obtain st2 where c: "clone_files [0..<NFILES cfg] new ?s1 = Inr st2"
    by (auto simp: proc_create_def create_init_def Let_def split: sum.splits)
  from clone_files_Inr [OF c create_init_slots]
  have st2: "st2 = ?s1" and nul: "\<forall>fd\<in>set [0..<NFILES cfg]. p_files (procs ?s1 (curproc ?s1)) ! fd = NULL"
    by auto
  have a: "\<forall>fd<NFILES cfg. p_files (procs (create_init cfg pid new pml4 name st0) (curproc st0)) ! fd = NULL"
    using nul by (simp add: st create_init_def)
  have pidn: "p_pid (procs (clone_cwd new ?s1) new) = pid"
    by (simp add: clone_cwd_def create_init_def new_proc_def upd_proc_def vref_def Let_def)
  have cur: "curproc (if pid = PID_INIT cfg then (clone_cwd new ?s1)\<lparr>proc_initproc := new\<rparr>
                      else clone_cwd new ?s1) = curproc st0"
    by (simp add: clone_cwd_def create_init_def upd_proc_def vref_def Let_def st)
  have "s1 = (let st1 = ?s1;
                  st3 = clone_cwd new st1;
                  st4 = (if pid = PID_INIT cfg then st3\<lparr>proc_initproc := new\<rparr> else st3);
                  st5 = list_insert_tail_child (curproc st0) new st4
              in st5\<lparr>proc_list := proc_list st5 @ [new]\<rparr>)"
    using assms g nn c st2 pidn cur
    by (simp add: proc_create_def create_init_def [symmetric] Let_def)
  then show ?thesis using pid a st by blast
qed


lemma proc_create_result:
  assumes "proc_create cfg new pml4 name s0 = Some (Inr (new, s1))"
    and "new \<noteq> NULL" and "new \<noteq> curproc s0"
  shows "files s1 = files s0"
    and "vnodes s1 = (if p_cwd (procs s0 (curproc s0)) \<noteq> NULL
                      then (vnodes s0)(p_cwd (procs s0 (curproc s0))
                             := vnodes s0 (p_cwd (procs s0 (curproc s0))) + 1)
                      else vnodes s0)"
    and "p_files (procs s1 new) = replicate (NFILES cfg) NULL"
    and "p_cwd (procs s1 new) = p_cwd (procs s0 (curproc s0))"
    and "p_children (procs s1 new) = []" and "p_pml4 (procs s1 new) = pml4"
    and "0 < p_pid (procs s1 new)" and "\<not> pid_in_use s0 (p_pid (procs s1 new))"
    and "a \<noteq> new \<Longrightarrow> p_pid (procs s1 a) = p_pid (procs s0 a)"
    and "p_children (procs s1 (curproc s0)) = p_children (procs s0 (curproc s0)) @ [new]"
    and "proc_list s1 = proc_list s0 @ [new]" and "curproc s1 = curproc s0"
    and "\<forall>fd<NFILES cfg. p_files (procs s0 (curproc s0)) ! fd = NULL"
proof -
  from proc_create_Inr [OF assms(1,2)] obtain pid where
    pid: "0 < pid" "\<not> pid_in_use s0 pid"
    and nul: "\<forall>fd<NFILES cfg. p_files (procs (create_init cfg pid new pml4 name s0) (curproc s0)) ! fd = NULL"
    and s1: "s1 = (let st1 = create_init cfg pid new pml4 name (s0\<lparr>next_pid := pid_succ cfg pid\<rparr>);
                  st3 = clone_cwd new st1;
                  st4 = (if pid = PID_INIT cfg then st3\<lparr>proc_initproc := new\<rparr> else st3);
                  st5 = list_insert_tail_child (curproc s0) new st4
              in st5\<lparr>proc_list := proc_list st5 @ [new]\<rparr>)"
    by blast
  note defs = Let_def create_init_def clone_cwd_def list_insert_tail_child_def upd_proc_def
    vref_def new_proc_def
  have pp: "p_pid (procs s1 new) = pid" using assms(3) by (simp add: s1 defs)
  show "files s1 = files s0" by (simp add: s1 defs)
  show "vnodes s1 = (if p_cwd (procs s0 (curproc s0)) \<noteq> NULL
                      then (vnodes s0)(p_cwd (procs s0 (curproc s0))
                             := vnodes s0 (p_cwd (procs s0 (curproc s0))) + 1)
                      else vnodes s0)"
    using assms(3) by (simp add: s1 defs)
  show "p_files (procs s1 new) = replicate (NFILES cfg) NULL" using assms(3) by (simp add: s1 defs)
  show "p_cwd (procs s1 new) = p_cwd (procs s0 (curproc s0))" using assms(3) by (simp add: s1 defs)
  show "p_children (procs s1 new) = []" using assms(3) by (simp add: s1 defs)
  show "p_pml4 (procs s1 new) = pml4" using assms(3) by (simp add: s1 defs)
  show "0 < p_pid (procs s1 new)" "\<not> pid_in_use s0 (p_pid (procs s1 new))"
    using pid pp by simp_all
  show "a \<noteq> new \<Longrightarrow> p_pid (procs s1 a) = p_pid (procs s0 a)" by (simp add: s1 defs)
  show "p_children (procs s1 (curproc s0)) = p_children (procs s0 (curproc s0)) @ [new]"
    using assms(3) by (simp add: s1 defs)
  show "proc_list s1 = proc_list s0 @ [new]" by (simp add: s1 defs)
  show "curproc s1 = curproc s0" by (simp add: s1 defs)
  show "\<forall>fd<NFILES cfg. p_files (procs s0 (curproc s0)) ! fd = NULL"
    using nul assms(3) by (simp add: create_init_def)
qed


subsection \<open>Create, exit and wait in sequence\<close>

lemma create_exit_wait:
  assumes wf: "new \<noteq> NULL" "new \<noteq> curproc s0" "new \<notin> set (proc_list s0)"
      "set (p_children (procs s0 (curproc s0))) \<subseteq> set (proc_list s0)"
    and create: "proc_create cfg new pml4 name s0 = Some (Inr (new, s1))"
    and exit: "proc_thread_exiting cfg retval
                 ((upd_proc new (\<lambda>p. p\<lparr>p_threads := ths\<rparr>) s1)\<lparr>curproc := new, curthr := t\<rparr>) = Inr s2"
    and wait: "do_waitpid cfg (p_pid (procs s1 new)) status 0 ws
                 (s2\<lparr>curproc := curproc s0, curthr := curthr s0\<rparr>) = Return (Inr p) s3 ws'"
  shows "files s1 = files s0"
    and "vnodes s1 = (if p_cwd (procs s0 (curproc s0)) \<noteq> NULL
                      then (vnodes s0)(p_cwd (procs s0 (curproc s0))
                             := vnodes s0 (p_cwd (procs s0 (curproc s0))) + 1)
                      else vnodes s0)"
    and "files s2 = files s0" and "vnodes s2 = vnodes s0"
    and "p_files (procs s2 new) = replicate (NFILES cfg) NULL" and "p_cwd (procs s2 new) = NULL"
    and "files s3 = files s2" and "vnodes s3 = vnodes s2"
    and "p = p_pid (procs s1 new)" and "new \<notin> set (proc_list s3)" and "new \<notin> proc_slab s3"
proof -
  note C = proc_create_result [OF create wf(1,2)]
  let ?par = "curproc s0"
  let ?pid = "p_pid (procs s1 new)"
  let ?sx = "(upd_proc new (\<lambda>p. p\<lparr>p_threads := ths\<rparr>) s1)\<lparr>curproc := new, curthr := t\<rparr>"
  from exit obtain sc where cl: "proc_cleanup cfg retval ?sx = Inr sc"
    and s2: "s2 = (upd_thr (curthr sc) (\<lambda>t. t\<lparr>kt_retval := retval, kt_state := KT_EXITED\<rparr>) sc)
                 \<lparr>woken := woken sc @ [p_pproc (procs sc (curproc sc))]\<rparr>"
    by (auto simp: proc_thread_exiting_def Let_def upd_thr_def split: sum.splits)
  have x1: "\<forall>fd<NFILES cfg. p_files (procs ?sx (curproc ?sx)) ! fd = NULL"
    by (simp add: upd_proc_def C(3))
  have x2: "p_children (procs ?sx (curproc ?sx)) = []" by (simp add: upd_proc_def C(5))
  note E = proc_cleanup_empty_table [OF x1 x2 cl]
  note K = proc_cleanup_Inr [OF cl]
  have px: "\<And>a. p_files (procs ?sx a) = p_files (procs s1 a)" "\<And>a. p_cwd (procs ?sx a) = p_cwd (procs s1 a)"
    "\<And>a. p_children (procs ?sx a) = p_children (procs s1 a)" "\<And>a. p_pid (procs ?sx a) = p_pid (procs s1 a)"
    "\<And>a. p_pml4 (procs ?sx a) = p_pml4 (procs s1 a)"
    "files ?sx = files s1" "vnodes ?sx = vnodes s1" "curproc ?sx = new"
    "\<And>a. p_files (procs (upd_proc new (\<lambda>p. p\<lparr>p_threads := ths\<rparr>) s1) a) = p_files (procs s1 a)"
    "\<And>a. p_cwd (procs (upd_proc new (\<lambda>p. p\<lparr>p_threads := ths\<rparr>) s1) a) = p_cwd (procs s1 a)"
    "\<And>a. p_children (procs (upd_proc new (\<lambda>p. p\<lparr>p_threads := ths\<rparr>) s1) a) = p_children (procs s1 a)"
    "\<And>a. p_pid (procs (upd_proc new (\<lambda>p. p\<lparr>p_threads := ths\<rparr>) s1) a) = p_pid (procs s1 a)"
    "\<And>a. p_state (procs (upd_proc new (\<lambda>p. p\<lparr>p_threads := ths\<rparr>) s1) a) = p_state (procs s1 a)"
    "files (upd_proc new (\<lambda>p. p\<lparr>p_threads := ths\<rparr>) s1) = files s1"
    "vnodes (upd_proc new (\<lambda>p. p\<lparr>p_threads := ths\<rparr>) s1) = vnodes s1"
    by (simp_all add: upd_proc_def)
  have p2: "procs s2 = procs sc" "files s2 = files sc" "vnodes s2 = vnodes sc"
    by (simp_all add: s2 upd_thr_def)
  show f1: "files s1 = files s0" by (rule C(1))
  show v1: "vnodes s1 = (if p_cwd (procs s0 (curproc s0)) \<noteq> NULL
                      then (vnodes s0)(p_cwd (procs s0 (curproc s0))
                             := vnodes s0 (p_cwd (procs s0 (curproc s0))) + 1)
                      else vnodes s0)" by (rule C(2))
  show f2: "files s2 = files s0" by (simp add: p2 E(1) px f1)
  show v2: "vnodes s2 = vnodes s0"
    by (simp add: p2 E(2) px C(4) v1)
  show t2: "p_files (procs s2 new) = replicate (NFILES cfg) NULL"
    by (simp add: p2 E(3) px C(3))
  show c2: "p_cwd (procs s2 new) = NULL" using E(4) by (simp add: p2 px)
  let ?sw = "s2\<lparr>curproc := ?par, curthr := curthr s0\<rparr>"
  have kids: "p_children (procs s2 ?par) = p_children (procs s0 ?par) @ [new]"
    by (simp add: p2 E(5) px C(10))
  have pidw: "\<And>a. p_pid (procs s2 a) = p_pid (procs s1 a)" by (simp add: p2 K(12) px)
  have others: "\<forall>c\<in>set (p_children (procs s0 ?par)). \<not> p_pid (procs s2 c) = ?pid"
  proof
    fix c assume c: "c \<in> set (p_children (procs s0 ?par))"
    then have reg: "c \<in> set (proc_list s0)" using wf(4) by auto
    then have "c \<noteq> new" using wf(3) by auto
    then have "p_pid (procs s2 c) = p_pid (procs s0 c)" by (simp add: pidw C(9))
    moreover have "p_pid (procs s0 c) \<noteq> ?pid" using C(8) reg by (auto simp: pid_in_use_iff)
    ultimately show "\<not> p_pid (procs s2 c) = ?pid" by simp
  qed
  have found: "List.find (\<lambda>c. p_pid (procs s2 c) = ?pid) (p_children (procs s2 ?par)) = Some new"
    unfolding kids by (rule find_append_last [OF others]) (simp add: pidw)
  have dead: "p_state (procs s2 new) = PROC_DEAD" by (simp add: p2 K(10) px)
  have "do_waitpid cfg ?pid status 0 ws ?sw = wait_child cfg new ?pid status ws ?sw"
    using C(7) found by (simp add: do_waitpid_def)
  also have "\<dots> = reap cfg new ?pid status ?sw ws"
    using dead by (subst wait_child.simps) simp
  finally have r: "reap cfg new ?pid status ?sw ws = Return (Inr p) s3 ws'" using wait by simp
  note R = reap_Return [OF r]
  show "p = ?pid" using R(1) by simp
  show "new \<notin> set (proc_list s3)" by (rule R(8))
  show "new \<notin> proc_slab s3" by (rule R(9))
  let ?sr = "list_remove_child new (?sw\<lparr>user_mem := (user_mem ?sw)(status := ucast (p_status (procs ?sw new)))\<rparr>)"
  from reap_cases [of cfg new ?pid status ?sw ws] r
  have d: "proc_destroy cfg new ?sr = Inr s3" by auto
  have y1: "\<forall>fd<NFILES cfg. p_files (procs ?sr new) ! fd = NULL"
    by (simp add: list_remove_child_def t2)
  have y2: "p_cwd (procs ?sr new) = NULL" by (simp add: list_remove_child_def c2)
  note D = proc_destroy_clean [OF y1 y2 d]
  show "files s3 = files s2" using D(1) by (simp add: list_remove_child_def)
  show "vnodes s3 = vnodes s2" using D(2) by (simp add: list_remove_child_def)
qed


subsection \<open>Unfolding the model on the small system\<close>

lemmas ex_defs = cfg_ex_def st_ex_def mk_proc_def

lemmas eval_defs = child_exits_def proc_thread_exiting_def proc_cleanup_def cleanup_children_def
      cleanup_release_def cleanup_mark_def release_files_def release_cwd_def fput_def vput_cwd_def
      reparent_child_def list_insert_tail_child_def list_remove_child_def
      upd_proc_def upd_thr_def Let_def upt_rec sched_sleep_on_def after_wakeups_def
      do_waitpid_def wait_child.simps wait_any.simps reap_def proc_destroy_def kthread_destroy_def

lemmas create_defs = proc_create_def proc_getid_def getid_loop.simps pid_in_use_def pid_succ_def
  new_proc_def clone_cwd_def vref_def fref_def memcpy_file_def

text \<open>
  \<open>proc_cleanup\<close> may block, as the comment of \<open>proc_thread_exiting\<close> notes. When A
  of the small system has run the first two statements of \<open>proc_cleanup\<close> and init
  then runs \<open>do_waitpid\<close> for any child, the wait finds A dead and returns its PID: the
  descriptor of A is freed while A still has its child C, and C keeps the freed
  descriptor as parent.
\<close>

lemma reap_during_cleanup:
  "\<exists>st'. do_waitpid cfg_ex (- 1) 100 0 []
            ((cleanup_mark 9 (st_ex\<lparr>curproc := 3, curthr := 13\<rparr>))\<lparr>curproc := 2, curthr := 12\<rparr>)
          = Return (Inr 2) st' []
      \<and> user_mem st' 100 = 9
      \<and> 3 \<notin> proc_slab st' \<and> 3 \<notin> set (proc_list st')
      \<and> p_children (procs st' 2) = [4]
      \<and> p_children (procs st' 3) = [5] \<and> p_pproc (procs st' 5) = 3"
  by (simp add: eval_defs ex_defs)

section \<open>Properties stated by the specification\<close>

subsection \<open>C1: cloning the descriptor table\<close>

text \<open>
  C1. The specification asks that every occupied slot of the caller's descriptor table
  is found, with the same handle, in the table of the new process. \<open>proc_create\<close> clears the new
  table and then, for an occupied slot of the caller, calls \<open>memcpy\<close> with the pointer
  held in the cleared slot as destination. Process A of the small system holds file 30
  in slot 0; when A calls \<open>proc_create\<close>, the call takes a reference to the file and
  then writes through the null pointer: it faults, and no handle is installed.
\<close>

theorem proc_create_clone_faults:
  "p_files (procs (st_ex\<lparr>curproc := 3, curthr := 13\<rparr>)
                  (curproc (st_ex\<lparr>curproc := 3, curthr := 13\<rparr>))) ! 0 = 30
   \<and> proc_create cfg_ex 6 46 ''sh'' (st_ex\<lparr>curproc := 3, curthr := 13\<rparr>) = Some (Inl NullDeref)"
  by (simp add: proc_create_def proc_getid_def getid_loop.simps pid_in_use_def pid_succ_def
      new_proc_def fref_def memcpy_file_def upt_rec Let_def ex_defs)

subsection \<open>C2: waiting for one child\<close>

text \<open>
  C2. \<open>do_waitpid\<close> is called with options zero, a valid \<open>status\<close> pointer and a
  positive PID that a child of the caller has. For the first child \<open>c\<close> with this PID:
  as long as \<open>c\<close> is not dead at any wakeup, whatever else the wakeups bring (the death
  of other children too), the call is still blocked when the wakeups are used up. If \<open>c\<close>
  is dead for the first time at wakeup \<open>k\<close> (and its page table pointer is set, which
  \<open>proc_destroy\<close> asserts), the call returns the PID then, with the later wakeups
  unused: the status of \<open>c\<close> is stored through \<open>status\<close> (converted to \<open>int\<close>),
  \<open>c\<close> is out of the child list of the caller and out of the registry, its threads are
  destroyed and its descriptor is freed.
\<close>

theorem do_waitpid_waits_for_child:
  assumes "0 < pid"
    and "pid \<in> set (map (\<lambda>c. p_pid (procs st c)) (p_children (procs st (curproc st))))"
    and "status \<noteq> NULL"
  shows "\<exists>c\<in>set (p_children (procs st (curproc st))). p_pid (procs st c) = pid
     \<and> ((\<forall>j\<le>length ws. p_state (procs (after_wakeups st (take j ws)) c) \<noteq> PROC_DEAD)
          \<longrightarrow> do_waitpid cfg pid status 0 ws st = Blocked (after_wakeups st ws))
     \<and> (\<forall>k\<le>length ws.
          (\<forall>j<k. p_state (procs (after_wakeups st (take j ws)) c) \<noteq> PROC_DEAD)
          \<and> p_state (procs (after_wakeups st (take k ws)) c) = PROC_DEAD
          \<and> p_pml4 (procs (after_wakeups st (take k ws)) c) \<noteq> NULL
          \<longrightarrow> (\<exists>st'. do_waitpid cfg pid status 0 ws st = Return (Inr pid) st' (drop k ws)
                \<and> user_mem st' status = ucast (p_status (procs (after_wakeups st (take k ws)) c))
                \<and> p_children (procs st' (curproc st))
                    = removeAll c (p_children (procs (after_wakeups st (take k ws)) (curproc st)))
                \<and> proc_list st' = removeAll c (proc_list (after_wakeups st (take k ws)))
                \<and> proc_slab st' = proc_slab (after_wakeups st (take k ws)) - {c}
                \<and> p_threads (procs st' c) = []))"
proof -
  from assms(2) obtain c where
    c: "List.find (\<lambda>c. p_pid (procs st c) = pid) (p_children (procs st (curproc st))) = Some c"
    by (cases "List.find (\<lambda>c. p_pid (procs st c) = pid) (p_children (procs st (curproc st)))")
       (auto simp: find_None_iff)
  have mem: "c \<in> set (p_children (procs st (curproc st)))" and pid: "p_pid (procs st c) = pid"
    using find_SomeD [OF c] by auto
  have eq: "do_waitpid cfg pid status 0 ws st = wait_child cfg c pid status ws st"
    using assms(1) c by (simp add: do_waitpid_def)
  have blocked: "(\<forall>j\<le>length ws. p_state (procs (after_wakeups st (take j ws)) c) \<noteq> PROC_DEAD)
          \<longrightarrow> do_waitpid cfg pid status 0 ws st = Blocked (after_wakeups st ws)"
    using eq wait_child_blocked [of ws st c cfg pid status] by simp
  have returns: "\<exists>st'. do_waitpid cfg pid status 0 ws st = Return (Inr pid) st' (drop k ws)
                \<and> user_mem st' status = ucast (p_status (procs (after_wakeups st (take k ws)) c))
                \<and> p_children (procs st' (curproc st))
                    = removeAll c (p_children (procs (after_wakeups st (take k ws)) (curproc st)))
                \<and> proc_list st' = removeAll c (proc_list (after_wakeups st (take k ws)))
                \<and> proc_slab st' = proc_slab (after_wakeups st (take k ws)) - {c}
                \<and> p_threads (procs st' c) = []"
    if k: "k \<le> length ws"
      and before: "\<forall>j<k. p_state (procs (after_wakeups st (take j ws)) c) \<noteq> PROC_DEAD"
      and dead: "p_state (procs (after_wakeups st (take k ws)) c) = PROC_DEAD"
      and pml4: "p_pml4 (procs (after_wakeups st (take k ws)) c) \<noteq> NULL" for k
  proof -
    have "do_waitpid cfg pid status 0 ws st
            = reap cfg c pid status (after_wakeups st (take k ws)) (drop k ws)"
      using eq wait_child_returns [OF k before dead] by simp
    then show ?thesis
      using reap_ok [OF assms(3) pml4, of cfg pid "drop k ws"] by auto
  qed
  show ?thesis using mem pid blocked returns by blast
qed

theorem do_waitpid_waits_for_child_witness:
  "(0::int) < 2
   \<and> 2 \<in> set (map (\<lambda>c. p_pid (procs st_ex c)) (p_children (procs st_ex (curproc st_ex))))
   \<and> (100::nat) \<noteq> NULL
   \<and> p_state (procs (after_wakeups st_ex (take 1 ws_ex)) 4) = PROC_DEAD
   \<and> p_state (procs (after_wakeups st_ex (take 1 ws_ex)) 3) = PROC_RUNNING
   \<and> do_waitpid cfg_ex 2 100 0 (take 1 ws_ex) st_ex = Blocked (after_wakeups st_ex (take 1 ws_ex))
   \<and> (\<exists>st'. do_waitpid cfg_ex 2 100 0 ws_ex st_ex = Return (Inr 2) st' []
         \<and> user_mem st' 100 = 9 \<and> p_children (procs st' 2) = [4, 5]
         \<and> proc_list st' = [2, 4, 5] \<and> proc_slab st' = {2, 4, 5})"
proof -
  have h1: "(0::int) < 2" by simp
  have h2: "2 \<in> set (map (\<lambda>c. p_pid (procs st_ex c)) (p_children (procs st_ex (curproc st_ex))))"
    by (simp add: ex_defs)
  have h3: "(100::nat) \<noteq> NULL" by simp
  have kids: "p_children (procs st_ex (curproc st_ex)) = [3, 4]" "curproc st_ex = 2"
    "p_pid (procs st_ex 4) = 3" "p_pid (procs st_ex 3) = 2"
    by (simp_all add: ex_defs)
  have s0: "p_state (procs (after_wakeups st_ex (take 0 ws_ex)) 3) = PROC_RUNNING"
    by (simp add: ws_ex_def eval_defs ex_defs)
  have s1: "p_state (procs (after_wakeups st_ex (take 1 ws_ex)) 3) = PROC_RUNNING"
    "p_state (procs (after_wakeups st_ex (take 1 ws_ex)) 4) = PROC_DEAD"
    by (simp_all add: ws_ex_def eval_defs ex_defs)
  have s2: "p_state (procs (after_wakeups st_ex (take 2 ws_ex)) 3) = PROC_DEAD"
    "p_pml4 (procs (after_wakeups st_ex (take 2 ws_ex)) 3) \<noteq> NULL"
    "p_status (procs (after_wakeups st_ex (take 2 ws_ex)) 3) = 9"
    "p_children (procs (after_wakeups st_ex (take 2 ws_ex)) 2) = [3, 4, 5]"
    "proc_list (after_wakeups st_ex (take 2 ws_ex)) = [2, 3, 4, 5]"
    "proc_slab (after_wakeups st_ex (take 2 ws_ex)) = {2, 3, 4, 5}"
    by (simp_all add: ws_ex_def eval_defs ex_defs)
  have len: "length ws_ex = 2" "drop 2 ws_ex = []" "length (take 1 ws_ex) = 1"
    "take 1 (take 1 ws_ex) = take 1 ws_ex" "take 0 (take 1 ws_ex) = take 0 ws_ex"
    by (simp_all add: ws_ex_def)
  from do_waitpid_waits_for_child [OF h1 h2 h3, of ws_ex cfg_ex] obtain c where
    c: "c \<in> set (p_children (procs st_ex (curproc st_ex)))" "p_pid (procs st_ex c) = 2"
    and ret: "\<forall>k\<le>length ws_ex.
          (\<forall>j<k. p_state (procs (after_wakeups st_ex (take j ws_ex)) c) \<noteq> PROC_DEAD)
          \<and> p_state (procs (after_wakeups st_ex (take k ws_ex)) c) = PROC_DEAD
          \<and> p_pml4 (procs (after_wakeups st_ex (take k ws_ex)) c) \<noteq> NULL
          \<longrightarrow> (\<exists>st'. do_waitpid cfg_ex 2 100 0 ws_ex st_ex = Return (Inr 2) st' (drop k ws_ex)
                \<and> user_mem st' 100 = ucast (p_status (procs (after_wakeups st_ex (take k ws_ex)) c))
                \<and> p_children (procs st' (curproc st_ex))
                    = removeAll c (p_children (procs (after_wakeups st_ex (take k ws_ex)) (curproc st_ex)))
                \<and> proc_list st' = removeAll c (proc_list (after_wakeups st_ex (take k ws_ex)))
                \<and> proc_slab st' = proc_slab (after_wakeups st_ex (take k ws_ex)) - {c}
                \<and> p_threads (procs st' c) = [])"
    by blast
  have c3: "c = 3" using c kids by auto
  have r: "\<exists>st'. do_waitpid cfg_ex 2 100 0 ws_ex st_ex = Return (Inr 2) st' []
         \<and> user_mem st' 100 = 9 \<and> p_children (procs st' 2) = [4, 5]
         \<and> proc_list st' = [2, 4, 5] \<and> proc_slab st' = {2, 4, 5}"
    using ret [rule_format, of 2] s0 s1 s2 len kids
    by (auto simp: c3 all_less_two)
  from do_waitpid_waits_for_child [OF h1 h2 h3, of "take 1 ws_ex" cfg_ex] obtain c' where
    c': "c' \<in> set (p_children (procs st_ex (curproc st_ex)))" "p_pid (procs st_ex c') = 2"
    and blk: "(\<forall>j\<le>length (take 1 ws_ex). p_state (procs (after_wakeups st_ex (take j (take 1 ws_ex))) c') \<noteq> PROC_DEAD)
          \<longrightarrow> do_waitpid cfg_ex 2 100 0 (take 1 ws_ex) st_ex = Blocked (after_wakeups st_ex (take 1 ws_ex))"
    by blast
  have c'3: "c' = 3" using c' kids by auto
  have "\<forall>j\<le>length (take 1 ws_ex). p_state (procs (after_wakeups st_ex (take j (take 1 ws_ex))) 3) \<noteq> PROC_DEAD"
  proof (intro allI impI)
    fix j assume "j \<le> length (take 1 ws_ex)"
    then consider "j = 0" | "j = 1" using len by fastforce
    then show "p_state (procs (after_wakeups st_ex (take j (take 1 ws_ex))) 3) \<noteq> PROC_DEAD"
      using s0 s1 len by cases simp_all
  qed
  then have b: "do_waitpid cfg_ex 2 100 0 (take 1 ws_ex) st_ex = Blocked (after_wakeups st_ex (take 1 ws_ex))"
    using blk c'3 by simp
  show ?thesis using h1 h2 h3 s1 b r by blast
qed

subsection \<open>C3: PID allocation\<close>

text \<open>
  C3. The allocator is called in a state whose cursor \<open>next_pid\<close> lies in the PID space
  \<open>[1, PROC_MAX_COUNT)\<close>, which holds at boot and after every call. The call returns:
  its loop ends and its assertion holds. It returns either a PID of the space that no
  process of the registry has, or \<open>-1\<close>; it returns \<open>-1\<close> only when every PID of the
  space is the PID of a registered process. The cursor stays in the space, and the
  registry and the descriptors are left as they were.
\<close>

theorem proc_getid_allocates:
  assumes "1 \<le> next_pid st" and "next_pid st < PROC_MAX_COUNT cfg"
  shows "\<exists>pid st'. proc_getid cfg st = Some (Inr (pid, st'))
     \<and> (1 \<le> pid \<and> pid < PROC_MAX_COUNT cfg \<and> (\<forall>p\<in>set (proc_list st). p_pid (procs st p) \<noteq> pid)
         \<or> pid = - 1)
     \<and> (pid = - 1 \<longrightarrow>
          (\<forall>q. 1 \<le> q \<and> q < PROC_MAX_COUNT cfg \<longrightarrow> (\<exists>p\<in>set (proc_list st). p_pid (procs st p) = q)))
     \<and> 1 \<le> next_pid st' \<and> next_pid st' < PROC_MAX_COUNT cfg
     \<and> proc_list st' = proc_list st \<and> procs st' = procs st"
proof -
  from getid_loop_total [OF assms] obtain r where
    r: "getid_loop cfg st (next_pid st) = Some r" and ok: "scan_ok cfg st r" by blast
  show ?thesis
  proof (cases r)
    case Exhausted
    then have "proc_getid cfg st = Some (Inr (- 1, st))" using r by (simp add: proc_getid_def)
    moreover have "\<forall>q. 1 \<le> q \<and> q < PROC_MAX_COUNT cfg \<longrightarrow> (\<exists>p\<in>set (proc_list st). p_pid (procs st p) = q)"
      using ok Exhausted by (simp add: scan_ok_def pid_in_use_iff)
    ultimately show ?thesis using assms by simp
  next
    case (Free p)
    then have p: "1 \<le> p" "p < PROC_MAX_COUNT cfg" "\<forall>a\<in>set (proc_list st). p_pid (procs st a) \<noteq> p"
      using ok by (simp_all add: scan_ok_def pid_free_iff)
    have "proc_getid cfg st = Some (Inr (p, st\<lparr>next_pid := pid_succ cfg p\<rparr>))"
      using r Free p by (simp add: proc_getid_def)
    moreover have "1 \<le> pid_succ cfg p \<and> pid_succ cfg p < PROC_MAX_COUNT cfg"
      using p by (simp add: pid_succ_def)
    ultimately show ?thesis using p by simp
  qed
qed

theorem proc_getid_allocates_witness:
  "1 \<le> next_pid st_ex \<and> next_pid st_ex < PROC_MAX_COUNT cfg_ex
   \<and> proc_getid cfg_ex st_ex = Some (Inr (5, st_ex\<lparr>next_pid := 6\<rparr>))
   \<and> 5 \<notin> set (map (\<lambda>p. p_pid (procs st_ex p)) (proc_list st_ex))
   \<and> next_pid st_ex < PROC_MAX_COUNT (cfg_ex\<lparr>PROC_MAX_COUNT := 5\<rparr>)
   \<and> proc_getid (cfg_ex\<lparr>PROC_MAX_COUNT := 5\<rparr>) st_ex = Some (Inr (- 1, st_ex))
   \<and> {1, 2, 3, 4} \<subseteq> set (map (\<lambda>p. p_pid (procs st_ex p)) (proc_list st_ex))"
proof -
  have h1: "1 \<le> next_pid st_ex" by (simp add: ex_defs)
  have h2: "next_pid st_ex < PROC_MAX_COUNT cfg_ex" by (simp add: ex_defs)
  have h3: "next_pid st_ex < PROC_MAX_COUNT (cfg_ex\<lparr>PROC_MAX_COUNT := 5\<rparr>)" by (simp add: ex_defs)
  have e1: "proc_getid cfg_ex st_ex = Some (Inr (5, st_ex\<lparr>next_pid := 6\<rparr>))"
    by (simp add: proc_getid_def getid_loop.simps pid_in_use_def pid_succ_def ex_defs)
  have e2: "proc_getid (cfg_ex\<lparr>PROC_MAX_COUNT := 5\<rparr>) st_ex = Some (Inr (- 1, st_ex))"
    by (simp add: proc_getid_def getid_loop.simps pid_in_use_def pid_succ_def ex_defs)
  have a: "5 \<notin> set (map (\<lambda>p. p_pid (procs st_ex p)) (proc_list st_ex))"
    using proc_getid_allocates [OF h1 h2] e1 by auto
  have all: "\<And>q. 1 \<le> q \<Longrightarrow> q < 5 \<Longrightarrow> q \<in> set (map (\<lambda>p. p_pid (procs st_ex p)) (proc_list st_ex))"
    using proc_getid_allocates [OF h1 h3] e2 by auto
  have b: "{1, 2, 3, 4} \<subseteq> set (map (\<lambda>p. p_pid (procs st_ex p)) (proc_list st_ex))"
    using all [of 1] all [of 2] all [of 3] all [of 4] by simp
  show ?thesis using h1 h2 h3 e1 e2 a b by blast
qed

subsection \<open>C4: the states of a process\<close>




subsection \<open>C5: reparenting\<close>

text \<open>
  C5. When a process that is not init runs \<open>proc_cleanup\<close>, and init exists and is
  another process, the cleanup completes; afterwards every process that was in the child
  list of the exiting process is in the child list of init and has init as its parent,
  and the child list of the exiting process is empty. The child list of init is its old
  list followed by the adopted children.
\<close>

theorem cleanup_reparents_children:
  assumes "p_pid (procs st (curproc st)) \<noteq> PID_INIT cfg"
    and "proc_initproc st \<noteq> NULL" and "proc_initproc st \<noteq> curproc st"
  shows "\<exists>st'. proc_cleanup cfg status st = Inr st'
     \<and> (\<forall>c\<in>set (p_children (procs st (curproc st))).
           c \<in> set (p_children (procs st' (proc_initproc st)))
           \<and> p_pproc (procs st' c) = proc_initproc st)
     \<and> p_children (procs st' (curproc st)) = []
     \<and> p_children (procs st' (proc_initproc st))
         = filter (\<lambda>c. c \<notin> set (p_children (procs st (curproc st))))
             (p_children (procs st (proc_initproc st)))
           @ remdups (p_children (procs st (curproc st)))
     \<and> proc_initproc st' = proc_initproc st \<and> curproc st' = curproc st"
proof -
  let ?s = "cleanup_release cfg (cleanup_mark status st)"
  have a: "p_pid (procs ?s (curproc ?s)) \<noteq> PID_INIT cfg" using assms(1)
    by (simp add: cleanup_head_frame)
  have b: "proc_initproc ?s \<noteq> NULL" using assms(2) by (simp add: cleanup_head_frame)
  from cleanup_children_Inr [OF a b] obtain st' where
    r: "cleanup_children cfg ?s = Inr st'"
    and i: "proc_initproc st' = proc_initproc ?s" and c: "curproc st' = curproc ?s"
    and pp: "\<And>a. p_pproc (procs st' a) = (if a \<in> set (p_children (procs ?s (curproc ?s)))
                                      then proc_initproc ?s else p_pproc (procs ?s a))"
    and pc: "\<And>a. p_children (procs st' a)
              = filter (\<lambda>c. c \<notin> set (p_children (procs ?s (curproc ?s)))) (p_children (procs ?s a))
                @ (if a = proc_initproc ?s then remdups (p_children (procs ?s (curproc ?s))) else [])"
    by blast
  have "proc_cleanup cfg status st = Inr st'" using r by (simp add: proc_cleanup_def)
  moreover have "\<forall>c\<in>set (p_children (procs st (curproc st))).
           c \<in> set (p_children (procs st' (proc_initproc st)))
           \<and> p_pproc (procs st' c) = proc_initproc st"
    by (simp add: pp pc cleanup_head_frame)
  moreover have "p_children (procs st' (curproc st)) = []"
    using assms(3) by (simp add: pc cleanup_head_frame)
  moreover have "p_children (procs st' (proc_initproc st))
         = filter (\<lambda>c. c \<notin> set (p_children (procs st (curproc st))))
             (p_children (procs st (proc_initproc st)))
           @ remdups (p_children (procs st (curproc st)))"
    by (simp add: pc cleanup_head_frame)
  ultimately show ?thesis using i c by (simp add: cleanup_head_frame)
qed

theorem cleanup_reparents_children_witness:
  "p_pid (procs (st_ex\<lparr>curproc := 3, curthr := 13\<rparr>) (curproc (st_ex\<lparr>curproc := 3, curthr := 13\<rparr>)))
      \<noteq> PID_INIT cfg_ex
   \<and> proc_initproc (st_ex\<lparr>curproc := 3, curthr := 13\<rparr>) \<noteq> NULL
   \<and> proc_initproc (st_ex\<lparr>curproc := 3, curthr := 13\<rparr>) \<noteq> curproc (st_ex\<lparr>curproc := 3, curthr := 13\<rparr>)
   \<and> p_children (procs (st_ex\<lparr>curproc := 3, curthr := 13\<rparr>) 3) = [5]
   \<and> (\<exists>st'. proc_cleanup cfg_ex 9 (st_ex\<lparr>curproc := 3, curthr := 13\<rparr>) = Inr st'
        \<and> p_children (procs st' 2) = [3, 4, 5] \<and> p_pproc (procs st' 5) = 2
        \<and> p_children (procs st' 3) = [])"
proof -
  let ?s = "st_ex\<lparr>curproc := 3, curthr := 13\<rparr>"
  have h1: "p_pid (procs ?s (curproc ?s)) \<noteq> PID_INIT cfg_ex" by (simp add: ex_defs)
  have h2: "proc_initproc ?s \<noteq> NULL" by (simp add: ex_defs)
  have h3: "proc_initproc ?s \<noteq> curproc ?s" by (simp add: ex_defs)
  have c: "p_children (procs ?s 3) = [5]" "p_children (procs ?s 2) = [3, 4]"
    "proc_initproc ?s = 2" "curproc ?s = 3"
    by (simp_all add: ex_defs)
  from cleanup_reparents_children [OF h1 h2 h3, of 9] c
  have "\<exists>st'. proc_cleanup cfg_ex 9 ?s = Inr st'
        \<and> p_children (procs st' 2) = [3, 4, 5] \<and> p_pproc (procs st' 5) = 2
        \<and> p_children (procs st' 3) = []"
    by auto
  then show ?thesis using h1 h2 h3 c by blast
qed

subsection \<open>C6: mass kill\<close>

text \<open>
  C6. \<open>proc_kill_all\<close> first cancels and then exits: its result is that of
  \<open>do_exit(-1)\<close> in the state its loop leaves. In that state every thread of every
  registered process whose PID is neither the caller's, nor \<open>PID_IDLE\<close>, nor
  \<open>PID_INIT\<close> carries a cancellation request with value \<open>-1\<close>; a thread that belongs
  only to the caller, to idle or to init is untouched, and nothing but threads has
  changed. When the exit of the caller goes through, the caller is dead with status
  \<open>-1\<close>, its thread has exited with value \<open>-1\<close>, no cancellation flag has changed
  since the loop and every other process is in the state it was in.
\<close>

theorem proc_kill_all_cancels:
  "proc_kill_all cfg st = do_exit cfg (- 1) (kill_others cfg st)
   \<and> (\<forall>p\<in>set (proc_list st).
        p_pid (procs st p) \<noteq> p_pid (procs st (curproc st))
        \<and> p_pid (procs st p) \<noteq> PID_IDLE \<and> p_pid (procs st p) \<noteq> PID_INIT cfg
        \<longrightarrow> (\<forall>t\<in>set (p_threads (procs st p)).
               kt_cancelled (kthreads (kill_others cfg st) t)
               \<and> kt_retval (kthreads (kill_others cfg st) t) = - 1))
   \<and> (\<forall>t. (\<forall>p\<in>set (proc_list st). t \<in> set (p_threads (procs st p)) \<longrightarrow>
              p_pid (procs st p) = p_pid (procs st (curproc st))
              \<or> p_pid (procs st p) = PID_IDLE \<or> p_pid (procs st p) = PID_INIT cfg)
         \<longrightarrow> kthreads (kill_others cfg st) t = kthreads st t)
   \<and> kill_others cfg st = st\<lparr>kthreads := kthreads (kill_others cfg st)\<rparr>
   \<and> (\<forall>st'. proc_kill_all cfg st = Inr st' \<longrightarrow>
        p_state (procs st' (curproc st)) = PROC_DEAD \<and> p_status (procs st' (curproc st)) = - 1
        \<and> kt_state (kthreads st' (curthr st)) = KT_EXITED
        \<and> kt_retval (kthreads st' (curthr st)) = - 1
        \<and> (\<forall>t. kt_cancelled (kthreads st' t) = kt_cancelled (kthreads (kill_others cfg st) t))
        \<and> (\<forall>t. t \<noteq> curthr st \<longrightarrow> kthreads st' t = kthreads (kill_others cfg st) t)
        \<and> (\<forall>a. a \<noteq> curproc st \<longrightarrow> p_state (procs st' a) = p_state (procs st a)))"
proof -
  let ?k = "kill_others cfg st"
  note ke = kill_others_eq [of cfg st]
  have kt: "\<And>t. kthreads ?k t =
      (if \<exists>p\<in>set (proc_list st). kill_target cfg st p \<and> t \<in> set (p_threads (procs st p))
       then (kthreads st t)\<lparr>kt_retval := - 1, kt_cancelled := True\<rparr> else kthreads st t)"
    by (subst ke) simp
  have same: "procs ?k = procs st" "curproc ?k = curproc st" "curthr ?k = curthr st"
    by (subst ke, simp)+
  have a: "proc_kill_all cfg st = do_exit cfg (- 1) ?k" by (simp add: proc_kill_all_def)
  have b: "\<forall>p\<in>set (proc_list st).
        p_pid (procs st p) \<noteq> p_pid (procs st (curproc st))
        \<and> p_pid (procs st p) \<noteq> PID_IDLE \<and> p_pid (procs st p) \<noteq> PID_INIT cfg
        \<longrightarrow> (\<forall>t\<in>set (p_threads (procs st p)).
               kt_cancelled (kthreads ?k t) \<and> kt_retval (kthreads ?k t) = - 1)"
    by (auto simp: kt kill_target_def)
  have c: "\<forall>t. (\<forall>p\<in>set (proc_list st). t \<in> set (p_threads (procs st p)) \<longrightarrow>
              p_pid (procs st p) = p_pid (procs st (curproc st))
              \<or> p_pid (procs st p) = PID_IDLE \<or> p_pid (procs st p) = PID_INIT cfg)
         \<longrightarrow> kthreads ?k t = kthreads st t"
    by (auto simp: kt kill_target_def)
  have "\<And>x f. x = st\<lparr>kthreads := f\<rparr> \<Longrightarrow> x = st\<lparr>kthreads := kthreads x\<rparr>" by simp
  from this [OF ke] have d: "?k = st\<lparr>kthreads := kthreads ?k\<rparr>" .
  have e: "p_state (procs st' (curproc st)) = PROC_DEAD \<and> p_status (procs st' (curproc st)) = - 1
        \<and> kt_state (kthreads st' (curthr st)) = KT_EXITED
        \<and> kt_retval (kthreads st' (curthr st)) = - 1
        \<and> (\<forall>t. kt_cancelled (kthreads st' t) = kt_cancelled (kthreads ?k t))
        \<and> (\<forall>t. t \<noteq> curthr st \<longrightarrow> kthreads st' t = kthreads ?k t)
        \<and> (\<forall>a. a \<noteq> curproc st \<longrightarrow> p_state (procs st' a) = p_state (procs st a))"
    if r: "proc_kill_all cfg st = Inr st'" for st'
  proof -
    have x: "proc_thread_exiting cfg (- 1) ?k = Inr st'"
      using r by (simp add: proc_kill_all_def do_exit_def kthread_exit_def)
    note px = proc_thread_exiting_Inr [OF x]
    show ?thesis by (simp add: px same)
  qed
  show ?thesis using a b c d e by blast
qed

theorem proc_kill_all_cancels_witness:
  "kt_cancelled (kthreads (kill_others cfg_ex (st_ex\<lparr>curproc := 3, curthr := 13\<rparr>)) 14)
   \<and> kt_retval (kthreads (kill_others cfg_ex (st_ex\<lparr>curproc := 3, curthr := 13\<rparr>)) 14) = - 1
   \<and> kt_cancelled (kthreads (kill_others cfg_ex (st_ex\<lparr>curproc := 3, curthr := 13\<rparr>)) 15)
   \<and> kt_retval (kthreads (kill_others cfg_ex (st_ex\<lparr>curproc := 3, curthr := 13\<rparr>)) 15) = - 1
   \<and> \<not> kt_cancelled (kthreads (kill_others cfg_ex (st_ex\<lparr>curproc := 3, curthr := 13\<rparr>)) 12)
   \<and> \<not> kt_cancelled (kthreads (kill_others cfg_ex (st_ex\<lparr>curproc := 3, curthr := 13\<rparr>)) 13)
   \<and> (\<exists>st'. proc_kill_all cfg_ex (st_ex\<lparr>curproc := 3, curthr := 13\<rparr>) = Inr st'
         \<and> p_state (procs st' 3) = PROC_DEAD \<and> p_status (procs st' 3) = - 1
         \<and> kt_state (kthreads st' 13) = KT_EXITED \<and> kt_retval (kthreads st' 13) = - 1
         \<and> p_state (procs st' 2) = PROC_RUNNING \<and> \<not> kt_cancelled (kthreads st' 12)
         \<and> kt_cancelled (kthreads st' 14) \<and> kt_cancelled (kthreads st' 15))"
proof -
  let ?s = "st_ex\<lparr>curproc := 3, curthr := 13\<rparr>"
  note T = proc_kill_all_cancels [of cfg_ex ?s]
  have pl: "proc_list st_ex = [2, 3, 4, 5]"
    and pids: "p_pid (procs st_ex 2) = 1" "p_pid (procs st_ex 3) = 2" "p_pid (procs st_ex 4) = 3"
      "p_pid (procs st_ex 5) = 4" "PID_INIT cfg_ex = 1"
    and thr: "p_threads (procs st_ex 2) = [12]" "p_threads (procs st_ex 3) = [13]"
      "p_threads (procs st_ex 4) = [14]" "p_threads (procs st_ex 5) = [15]"
    and old: "\<not> kt_cancelled (kthreads st_ex 12)" "\<not> kt_cancelled (kthreads st_ex 13)"
      "p_state (procs st_ex 2) = PROC_RUNNING"
    by (simp_all add: ex_defs)
  have t14: "kt_cancelled (kthreads (kill_others cfg_ex ?s) 14)
             \<and> kt_retval (kthreads (kill_others cfg_ex ?s) 14) = - 1"
    using T [THEN conjunct2, THEN conjunct1, rule_format, of 4 14] pl pids thr
    by (simp add: PID_IDLE_def)
  have t15: "kt_cancelled (kthreads (kill_others cfg_ex ?s) 15)
             \<and> kt_retval (kthreads (kill_others cfg_ex ?s) 15) = - 1"
    using T [THEN conjunct2, THEN conjunct1, rule_format, of 5 15] pl pids thr
    by (simp add: PID_IDLE_def)
  have "\<forall>p\<in>set (proc_list ?s). 12 \<in> set (p_threads (procs ?s p)) \<longrightarrow>
              p_pid (procs ?s p) = p_pid (procs ?s (curproc ?s))
              \<or> p_pid (procs ?s p) = PID_IDLE \<or> p_pid (procs ?s p) = PID_INIT cfg_ex"
    by (simp add: pl pids thr)
  then have t12: "kthreads (kill_others cfg_ex ?s) 12 = kthreads ?s 12"
    using T [THEN conjunct2, THEN conjunct2, THEN conjunct1] by blast
  have "\<forall>p\<in>set (proc_list ?s). 13 \<in> set (p_threads (procs ?s p)) \<longrightarrow>
              p_pid (procs ?s p) = p_pid (procs ?s (curproc ?s))
              \<or> p_pid (procs ?s p) = PID_IDLE \<or> p_pid (procs ?s p) = PID_INIT cfg_ex"
    by (simp add: pl pids thr)
  then have t13: "kthreads (kill_others cfg_ex ?s) 13 = kthreads ?s 13"
    using T [THEN conjunct2, THEN conjunct2, THEN conjunct1] by blast
  have "\<exists>st'. proc_kill_all cfg_ex ?s = Inr st'"
    by (simp add: proc_kill_all_def do_exit_def kthread_exit_def kill_others_def proc_kill_def
        kthread_cancel_def PID_IDLE_def eval_defs ex_defs)
  then obtain st' where r: "proc_kill_all cfg_ex ?s = Inr st'" by blast
  note E = T [THEN conjunct2, THEN conjunct2, THEN conjunct2, THEN conjunct2, rule_format, OF r]
  have "p_state (procs st' 3) = PROC_DEAD \<and> p_status (procs st' 3) = - 1
         \<and> kt_state (kthreads st' 13) = KT_EXITED \<and> kt_retval (kthreads st' 13) = - 1
         \<and> p_state (procs st' 2) = PROC_RUNNING \<and> \<not> kt_cancelled (kthreads st' 12)
         \<and> kt_cancelled (kthreads st' 14) \<and> kt_cancelled (kthreads st' 15)"
    using E pl old t12 t14 t15 by simp
  then show ?thesis using r t14 t15 t12 t13 old by auto
qed

subsection \<open>C7: reference counts over the life of a child\<close>

text \<open>
  C7. The specification asks that over create, exit and wait the reference count of
  every file the child inherits returns to its value before the create. Process A of
  the small system holds file 30, with count 3, in slot 0. When A calls \<open>proc_create\<close>,
  PID 5 is allocated and descriptor 6 is set up with a cleared table; the loop over the
  table takes a reference to file 30, which raises the count to 4, and then copies to
  the pointer held in slot 0 of the new table, which is null: the call faults. The
  handle has not been put into the table of the new process, so nothing that cleanup or
  \<open>proc_destroy\<close> release gives this reference back.
\<close>

theorem proc_create_keeps_reference:
  "f_refcount (files (st_ex\<lparr>curproc := 3, curthr := 13\<rparr>) 30) = 3
   \<and> proc_getid cfg_ex (st_ex\<lparr>curproc := 3, curthr := 13\<rparr>)
       = Some (Inr (5, st_ex\<lparr>curproc := 3, curthr := 13, next_pid := 6\<rparr>))
   \<and> p_files (procs (create_init cfg_ex 5 6 46 ''sh'' (st_ex\<lparr>curproc := 3, curthr := 13, next_pid := 6\<rparr>)) 3)
       = [30, NULL]
   \<and> p_files (procs (create_init cfg_ex 5 6 46 ''sh'' (st_ex\<lparr>curproc := 3, curthr := 13, next_pid := 6\<rparr>)) 6)
       = [NULL, NULL]
   \<and> f_refcount (files (fref 30
         (create_init cfg_ex 5 6 46 ''sh'' (st_ex\<lparr>curproc := 3, curthr := 13, next_pid := 6\<rparr>))) 30) = 4
   \<and> memcpy_file NULL 30 (fref 30
         (create_init cfg_ex 5 6 46 ''sh'' (st_ex\<lparr>curproc := 3, curthr := 13, next_pid := 6\<rparr>)))
       = Inl NullDeref
   \<and> clone_files [0..<NFILES cfg_ex] 6
         (create_init cfg_ex 5 6 46 ''sh'' (st_ex\<lparr>curproc := 3, curthr := 13, next_pid := 6\<rparr>))
       = Inl NullDeref
   \<and> proc_create cfg_ex 6 46 ''sh'' (st_ex\<lparr>curproc := 3, curthr := 13\<rparr>) = Some (Inl NullDeref)"
  by (simp add: create_init_def create_defs eval_defs ex_defs numeral_2_eq_2)

subsection \<open>C8: rejected calls of wait\<close>

text \<open>
  C8. A call of \<open>do_waitpid\<close> with PID zero, with a negative PID other than \<open>-1\<close>, or
  with options other than zero returns \<open>-ENOTSUP\<close> at once: no wakeup is used and the
  state is the one the call was made in.
\<close>

theorem do_waitpid_rejects:
  "pid = 0 \<or> pid < - 1 \<or> options \<noteq> 0
   \<Longrightarrow> do_waitpid cfg pid status options ws st = Return (Inl ENOTSUP) st ws"
  by (simp add: do_waitpid_def)

theorem do_waitpid_rejects_witness:
  "((0::int) = 0 \<or> (0::int) < - 1 \<or> (0::int) \<noteq> 0)
   \<and> do_waitpid cfg_ex 0 100 0 [] st_ex = Return (Inl ENOTSUP) st_ex []
   \<and> do_waitpid cfg_ex (- 7) 100 0 [] st_ex = Return (Inl ENOTSUP) st_ex []
   \<and> do_waitpid cfg_ex 2 100 1 [] st_ex = Return (Inl ENOTSUP) st_ex []"
  using do_waitpid_rejects [of 0 0 cfg_ex 100 "[]" st_ex]
    do_waitpid_rejects [of "- 7" 0 cfg_ex 100 "[]" st_ex]
    do_waitpid_rejects [of 2 1 cfg_ex 100 "[]" st_ex]
  by simp

subsection \<open>C9: wait without a child\<close>

text \<open>
  C9. \<open>do_waitpid\<close> returns \<open>-ECHILD\<close> exactly when the options are zero and either
  the PID is positive and no child of the caller has it, or the PID is \<open>-1\<close> and the
  caller has no child. The registry plays no part in this. When it returns \<open>-ECHILD\<close>
  it has not slept and has left the state as it was.
\<close>

theorem do_waitpid_echild_iff:
  "((\<exists>st' ws'. do_waitpid cfg pid status options ws st = Return (Inl ECHILD) st' ws')
     \<longleftrightarrow> options = 0
          \<and> (0 < pid \<and> (\<forall>c\<in>set (p_children (procs st (curproc st))). p_pid (procs st c) \<noteq> pid)
              \<or> pid = - 1 \<and> p_children (procs st (curproc st)) = []))
   \<and> (\<forall>st' ws'. do_waitpid cfg pid status options ws st = Return (Inl ECHILD) st' ws'
         \<longrightarrow> st' = st \<and> ws' = ws)"
proof (cases "pid = 0 \<or> pid < - 1 \<or> options \<noteq> 0")
  case True
  then have "do_waitpid cfg pid status options ws st = Return (Inl ENOTSUP) st ws"
    by (rule do_waitpid_enotsup)
  then show ?thesis using True by auto
next
  case ok: False
  show ?thesis
  proof (cases "no_such_child pid st")
    case True
    then have "do_waitpid cfg pid status options ws st = Return (Inl ECHILD) st ws"
      using ok by (rule do_waitpid_no_child [rotated])
    then show ?thesis using ok True by (auto simp: no_such_child_def)
  next
    case False
    from do_waitpid_has_child [OF ok False, of cfg ws]
    have "\<forall>st' ws'. do_waitpid cfg pid status options ws st \<noteq> Return (Inl ECHILD) st' ws'"
      using reap_not_error by (elim disjE exE conjE) auto
    then show ?thesis using ok False by (auto simp: no_such_child_def)
  qed
qed

theorem do_waitpid_echild_iff_witness:
  "(\<exists>p\<in>set (proc_list st_ex). p_pid (procs st_ex p) = 4)
   \<and> 4 \<notin> set (map (\<lambda>c. p_pid (procs st_ex c)) (p_children (procs st_ex (curproc st_ex))))
   \<and> do_waitpid cfg_ex 4 100 0 [] st_ex = Return (Inl ECHILD) st_ex []
   \<and> p_children (procs (st_ex\<lparr>curproc := 5\<rparr>) (curproc (st_ex\<lparr>curproc := 5\<rparr>))) = []
   \<and> do_waitpid cfg_ex (- 1) 100 0 [] (st_ex\<lparr>curproc := 5\<rparr>) = Return (Inl ECHILD) (st_ex\<lparr>curproc := 5\<rparr>) []"
proof -
  have r: "\<exists>p\<in>set (proc_list st_ex). p_pid (procs st_ex p) = 4" by (simp add: ex_defs)
  have n: "4 \<notin> set (map (\<lambda>c. p_pid (procs st_ex c)) (p_children (procs st_ex (curproc st_ex))))"
    by (simp add: ex_defs)
  have e: "p_children (procs (st_ex\<lparr>curproc := 5\<rparr>) (curproc (st_ex\<lparr>curproc := 5\<rparr>))) = []"
    by (simp add: ex_defs)
  have a: "do_waitpid cfg_ex 4 100 0 [] st_ex = Return (Inl ECHILD) st_ex []"
    using do_waitpid_echild_iff [of cfg_ex 4 100 0 "[]" st_ex] n by auto
  have b: "do_waitpid cfg_ex (- 1) 100 0 [] (st_ex\<lparr>curproc := 5\<rparr>)
             = Return (Inl ECHILD) (st_ex\<lparr>curproc := 5\<rparr>) []"
    using do_waitpid_echild_iff [of cfg_ex "- 1" 100 0 "[]" "st_ex\<lparr>curproc := 5\<rparr>"] e by auto
  show ?thesis using r n e a b by blast
qed

subsection \<open>C10: the status pointer\<close>

text \<open>
  C10. When \<open>do_waitpid\<close> returns the PID of a child it has reaped, \<open>status\<close> is not
  null. The child is the one the search of the caller's child list has found: for a
  positive PID the first child with that PID, and the PID returned is the one asked for;
  for \<open>-1\<close> the first dead child of the list at the wakeup at which the loop ends, and
  the PID returned is its PID. This child is dead at that wakeup. The state returned is
  the result of \<open>proc_destroy\<close> on the state in which the status of the child (converted
  from \<open>long\<close> to \<open>int\<close>) has been stored through \<open>status\<close> and the child has then
  been unlinked: the store comes first, reads the descriptor before it is freed, and is
  still there afterwards. The same call with a null \<open>status\<close> faults on the store, in
  the state the wait has reached, with the child neither unlinked nor destroyed. A call
  that returns an error returns the same error with a null \<open>status\<close>.
\<close>

theorem do_waitpid_status_deref:
  "(do_waitpid cfg pid status options ws st = Return (Inr p) st' ws' \<longrightarrow>
      status \<noteq> NULL
      \<and> (\<exists>c j. j \<le> length ws \<and> ws' = drop j ws
            \<and> (0 < pid \<and> p = pid
                  \<and> List.find (\<lambda>c. p_pid (procs st c) = pid) (p_children (procs st (curproc st))) = Some c
               \<or> pid = - 1 \<and> p = p_pid (procs (after_wakeups st (take j ws)) c)
                  \<and> List.find (\<lambda>c. p_state (procs (after_wakeups st (take j ws)) c) = PROC_DEAD)
                       (p_children (procs (after_wakeups st (take j ws)) (curproc st))) = Some c)
            \<and> p_state (procs (after_wakeups st (take j ws)) c) = PROC_DEAD
            \<and> proc_destroy cfg c (list_remove_child c
                 ((after_wakeups st (take j ws))
                    \<lparr>user_mem := (user_mem (after_wakeups st (take j ws)))
                        (status := ucast (p_status (procs (after_wakeups st (take j ws)) c)))\<rparr>)) = Inr st'
            \<and> user_mem st' status = ucast (p_status (procs (after_wakeups st (take j ws)) c))
            \<and> c \<notin> set (proc_list st') \<and> c \<notin> proc_slab st'
            \<and> do_waitpid cfg pid NULL options ws st = Panic NullDeref (after_wakeups st (take j ws))))
   \<and> (do_waitpid cfg pid status options ws st = Return (Inl e) st' ws' \<longrightarrow>
        do_waitpid cfg pid NULL options ws st = Return (Inl e) st' ws')"
proof (cases "pid = 0 \<or> pid < - 1 \<or> options \<noteq> 0")
  case True
  then show ?thesis by (simp add: do_waitpid_enotsup)
next
  case ok: False
  show ?thesis
  proof (cases "no_such_child pid st")
    case True
    have "\<And>x. do_waitpid cfg pid x options ws st = Return (Inl ECHILD) st ws"
      using ok True by (rule do_waitpid_no_child)
    then show ?thesis by auto
  next
    case False
    from do_waitpid_reaps [OF ok False, of cfg ws] show ?thesis
    proof
      assume "\<exists>s. \<forall>status. do_waitpid cfg pid status options ws st = Blocked s"
      then show ?thesis by auto
    next
      assume "\<exists>c p j. j \<le> length ws
              \<and> (0 < pid \<and> p = pid
                    \<and> List.find (\<lambda>c. p_pid (procs st c) = pid) (p_children (procs st (curproc st))) = Some c
                 \<or> pid = - 1 \<and> p = p_pid (procs (after_wakeups st (take j ws)) c)
                    \<and> List.find (\<lambda>c. p_state (procs (after_wakeups st (take j ws)) c) = PROC_DEAD)
                         (p_children (procs (after_wakeups st (take j ws)) (curproc st))) = Some c)
              \<and> p_state (procs (after_wakeups st (take j ws)) c) = PROC_DEAD
              \<and> (\<forall>status. do_waitpid cfg pid status options ws st
                    = reap cfg c p status (after_wakeups st (take j ws)) (drop j ws))"
      then obtain c q j where j: "j \<le> length ws"
        and tie: "0 < pid \<and> q = pid
                    \<and> List.find (\<lambda>c. p_pid (procs st c) = pid) (p_children (procs st (curproc st))) = Some c
                 \<or> pid = - 1 \<and> q = p_pid (procs (after_wakeups st (take j ws)) c)
                    \<and> List.find (\<lambda>c. p_state (procs (after_wakeups st (take j ws)) c) = PROC_DEAD)
                         (p_children (procs (after_wakeups st (take j ws)) (curproc st))) = Some c"
        and dead: "p_state (procs (after_wakeups st (take j ws)) c) = PROC_DEAD"
        and eq: "\<And>status. do_waitpid cfg pid status options ws st
                    = reap cfg c q status (after_wakeups st (take j ws)) (drop j ws)"
        by blast
      let ?sk = "after_wakeups st (take j ws)"
      have err: "do_waitpid cfg pid status options ws st \<noteq> Return (Inl e) st' ws'"
        using eq reap_not_error by simp
      have nul: "do_waitpid cfg pid NULL options ws st = Panic NullDeref ?sk"
        using eq by (simp add: reap_null)
      have "status \<noteq> NULL
            \<and> (\<exists>c j. j \<le> length ws \<and> ws' = drop j ws
            \<and> (0 < pid \<and> p = pid
                  \<and> List.find (\<lambda>c. p_pid (procs st c) = pid) (p_children (procs st (curproc st))) = Some c
               \<or> pid = - 1 \<and> p = p_pid (procs (after_wakeups st (take j ws)) c)
                  \<and> List.find (\<lambda>c. p_state (procs (after_wakeups st (take j ws)) c) = PROC_DEAD)
                       (p_children (procs (after_wakeups st (take j ws)) (curproc st))) = Some c)
            \<and> p_state (procs (after_wakeups st (take j ws)) c) = PROC_DEAD
            \<and> proc_destroy cfg c (list_remove_child c
                 ((after_wakeups st (take j ws))
                    \<lparr>user_mem := (user_mem (after_wakeups st (take j ws)))
                        (status := ucast (p_status (procs (after_wakeups st (take j ws)) c)))\<rparr>)) = Inr st'
            \<and> user_mem st' status = ucast (p_status (procs (after_wakeups st (take j ws)) c))
            \<and> c \<notin> set (proc_list st') \<and> c \<notin> proc_slab st'
            \<and> do_waitpid cfg pid NULL options ws st = Panic NullDeref (after_wakeups st (take j ws)))"
        if r: "do_waitpid cfg pid status options ws st = Return (Inr p) st' ws'"
      proof -
        from r eq have rr: "reap cfg c q status ?sk (drop j ws) = Return (Inr p) st' ws'" by simp
        have pq: "p = q" using reap_Return(1) [OF rr] by simp
        have w: "ws' = drop j ws" using reap_Return(2) [OF rr] .
        have nn: "status \<noteq> NULL" using reap_Return(3) [OF rr] .
        have d: "proc_destroy cfg c (list_remove_child c
                 (?sk\<lparr>user_mem := (user_mem ?sk)(status := ucast (p_status (procs ?sk c)))\<rparr>)) = Inr st'"
          using reap_cases [of cfg c q status ?sk "drop j ws"] rr by auto
        have u: "user_mem st' status = ucast (p_status (procs ?sk c))"
          using reap_Return(4) [OF rr] .
        have g: "c \<notin> set (proc_list st')" "c \<notin> proc_slab st'"
          using reap_Return(8,9) [OF rr] by simp_all
        show ?thesis using j w tie pq dead d u g nul nn by blast
      qed
      then show ?thesis using err by blast
    qed
  qed
qed

theorem do_waitpid_status_deref_witness:
  "(\<exists>st'. do_waitpid cfg_ex 3 100 0 [] st_zombie = Return (Inr 3) st' []
         \<and> proc_destroy cfg_ex 4 (list_remove_child 4
               (st_zombie\<lparr>user_mem := (user_mem st_zombie)(100 := 7)\<rparr>)) = Inr st'
         \<and> user_mem st' 100 = 7)
   \<and> p_status (procs st_zombie 4) = 7
   \<and> p_children (procs st_zombie 2) = [3, 4] \<and> p_pid (procs st_zombie 4) = 3
   \<and> 4 \<in> proc_slab st_zombie
   \<and> do_waitpid cfg_ex 3 NULL 0 [] st_zombie = Panic NullDeref st_zombie
   \<and> do_waitpid cfg_ex 0 100 0 [] st_zombie = Return (Inl ENOTSUP) st_zombie []
   \<and> do_waitpid cfg_ex 0 NULL 0 [] st_zombie = Return (Inl ENOTSUP) st_zombie []"
proof -
  have a0: "\<exists>st'. do_waitpid cfg_ex 3 100 0 [] st_zombie = Return (Inr 3) st' [] \<and> user_mem st' 100 = 7"
    by (simp add: st_zombie_def eval_defs ex_defs)
  then obtain st' where s: "do_waitpid cfg_ex 3 100 0 [] st_zombie = Return (Inr 3) st' []"
    and u: "user_mem st' 100 = 7" by blast
  have z: "p_status (procs st_zombie 4) = 7" "p_children (procs st_zombie 2) = [3, 4]"
    "p_pid (procs st_zombie 4) = 3" "4 \<in> proc_slab st_zombie" "curproc st_zombie = 2"
    "p_pid (procs st_zombie 3) = 2"
    by (simp_all add: st_zombie_def eval_defs ex_defs)
  note T = do_waitpid_status_deref [of cfg_ex 3 100 0 "[]" st_zombie 3 st' "[]", THEN conjunct1,
      rule_format, OF s]
  from T obtain c where f: "List.find (\<lambda>c. p_pid (procs st_zombie c) = 3)
        (p_children (procs st_zombie (curproc st_zombie))) = Some c"
    and d: "proc_destroy cfg_ex c (list_remove_child c
                 (st_zombie\<lparr>user_mem := (user_mem st_zombie)
                        (100 := ucast (p_status (procs st_zombie c)))\<rparr>)) = Inr st'"
    and b: "do_waitpid cfg_ex 3 NULL 0 [] st_zombie = Panic NullDeref st_zombie"
    by (auto simp: after_wakeups_simps)
  have c4: "c = 4" using f z by simp
  have d4: "proc_destroy cfg_ex 4 (list_remove_child 4
               (st_zombie\<lparr>user_mem := (user_mem st_zombie)(100 := 7)\<rparr>)) = Inr st'"
    using d c4 z(1) by simp
  have a: "\<exists>st'. do_waitpid cfg_ex 3 100 0 [] st_zombie = Return (Inr 3) st' []
         \<and> proc_destroy cfg_ex 4 (list_remove_child 4
               (st_zombie\<lparr>user_mem := (user_mem st_zombie)(100 := 7)\<rparr>)) = Inr st'
         \<and> user_mem st' 100 = 7"
    using s d4 u by blast
  have c: "do_waitpid cfg_ex 0 100 0 [] st_zombie = Return (Inl ENOTSUP) st_zombie []"
    by (simp add: do_waitpid_def)
  have e: "do_waitpid cfg_ex 0 NULL 0 [] st_zombie = Return (Inl ENOTSUP) st_zombie []"
    using do_waitpid_status_deref [of cfg_ex 0 100 0 "[]" st_zombie _ st_zombie "[]" ENOTSUP] c by simp
  show ?thesis using a z(1,2,3,4) b c e by (intro conjI)
qed

end
